theory Spec2Isabelle
  imports Main "HOL-Library.AList" "HOL-Library.Multiset"
begin

text \<open>
  A model of the room server of \<^verbatim>\<open>src/server.js\<close>: the registry \<^verbatim>\<open>rooms\<close>, the functions
  \<^verbatim>\<open>createRoom\<close>, \<^verbatim>\<open>joinRoom\<close>, \<^verbatim>\<open>leaveRoom\<close> and \<^verbatim>\<open>broadcastRoomState\<close>, and the socket
  handlers that change the registry. The server runs one handler at a time to its end,
  so a handler is a function from the state before to the state after and the list of
  what it emitted. Payloads are taken as the handlers destructure them (a room id, a
  name, a game state); the static file service and the listening port are left out.
\<close>

section \<open>JavaScript values\<close>

text \<open>
  The server stores and forwards client payloads without
  looking into them. The only thing it ever asks of such a value is whether it is
  truthy (\<^verbatim>\<open>a || b\<close>, \<^verbatim>\<open>if (room.gameState)\<close>). Numbers are the integral ones;
  a non-integral number is truthy like every non-zero number.
\<close>

datatype jsval =
    JUndefined
  | JNull
  | JBool bool
  | JNum int
  | JStr string
  | JArr "jsval list"
  | JObj "(string \<times> jsval) list"

fun truthy :: "jsval \<Rightarrow> bool" where
  "truthy JUndefined = False"
| "truthy JNull = False"
| "truthy (JBool b) = b"
| "truthy (JNum n) = (n \<noteq> 0)"
| "truthy (JStr s) = (s \<noteq> [])"
| "truthy (JArr xs) = True"
| "truthy (JObj kvs) = True"

definition js_or :: "jsval \<Rightarrow> jsval \<Rightarrow> jsval" where
  \<comment> \<open>\<^verbatim>\<open>a || b\<close>\<close>
  "js_or a b = (if truthy a then a else b)"

text \<open>A plain object read by key: own properties only, an absent key reads as undefined.\<close>

type_synonym jsobject = "string \<rightharpoonup> jsval"

definition get_prop :: "jsobject \<Rightarrow> string \<Rightarrow> jsval" where
  "get_prop obj k = (case obj k of None \<Rightarrow> JUndefined | Some v \<Rightarrow> v)"

text \<open>Decimal digits of a number, as a template literal prints it.\<close>

fun decimal :: "nat \<Rightarrow> string" where
  "decimal n = (if n < 10 then [''0123456789'' ! n]
                else decimal (n div 10) @ [''0123456789'' ! (n mod 10)])"

declare decimal.simps [simp del]

definition player_prefix :: string where
  \<comment> \<open>The two characters before the number in the default names, in UTF-8.\<close>
  "player_prefix = [CHR 0xE7, CHR 0x8E, CHR 0xA9, CHR 0xE5, CHR 0xAE, CHR 0xB6]"

section \<open>Rooms and the registry\<close>

type_synonym socketId = string
type_synonym roomId = string

record player =
  id' :: socketId
  name :: jsval
  isHost :: bool
  seat :: nat

text \<open>
  The status strings \<^verbatim>\<open>'waiting'\<close>, \<^verbatim>\<open>'playing'\<close> and \<^verbatim>\<open>'ended'\<close> of the comment at
  \<^verbatim>\<open>status:\<close>; the file never assigns the third.
\<close>

datatype status = Waiting | Playing | Ended

record room =
  players :: "player list"
  gameState :: jsval
  hostId :: socketId
  settings :: jsobject
  status :: status
  gameReady :: bool

text \<open>
  \<^verbatim>\<open>const rooms = new Map()\<close>: an association list in insertion order, which is the
  order a JavaScript Map iterates in. \<^verbatim>\<open>rooms.get\<close> is \<^const>\<open>map_of\<close>,
  \<^verbatim>\<open>rooms.set\<close> is \<^const>\<open>AList.update\<close> (a present key keeps its place, a new one goes
  last), \<^verbatim>\<open>rooms.delete\<close> is \<^const>\<open>AList.delete\<close>.
\<close>

type_synonym registry = "(roomId \<times> room) list"

subsection \<open>createRoom\<close>

text \<open>
  The settings of a new room: the three defaults, then every own property of the
  caller's object spread over them (\<^verbatim>\<open>...settings\<close> comes last in the literal).
\<close>

definition merge_settings :: "jsobject \<Rightarrow> jsobject" where
  "merge_settings s =
     [''basePoints'' \<mapsto> js_or (get_prop s ''basePoints'') (JNum 2000),
      ''perFanPoints'' \<mapsto> js_or (get_prop s ''perFanPoints'') (JNum 1000),
      ''initialPoints'' \<mapsto> js_or (get_prop s ''initialPoints'') (JNum 100000)] ++ s"

text \<open>
  \<^verbatim>\<open>generateRoomId()\<close> draws the identifier at random; the draw is the argument
  \<open>roomId\<close>. Nothing retries on a collision: \<^verbatim>\<open>rooms.set\<close> then replaces the room stored
  under that identifier. The caller's settings may be left out (\<^verbatim>\<open>settings = {}\<close>).
\<close>

definition createRoom :: "registry \<Rightarrow> roomId \<Rightarrow> socketId \<Rightarrow> jsobject option \<Rightarrow> registry \<times> roomId" where
  "createRoom rooms roomId hostId' settings_arg =
     (let s = (case settings_arg of None \<Rightarrow> Map.empty | Some obj \<Rightarrow> obj) in
      (AList.update roomId
         \<lparr> players = [\<lparr> id' = hostId',
                        name = js_or (get_prop s ''playerName'') (JStr (player_prefix @ ''1'')),
                        isHost = True, seat = 0 \<rparr>],
           gameState = JNull,
           hostId = hostId',
           settings = merge_settings s,
           status = Waiting,
           gameReady = False \<rparr> rooms,
       roomId))"

subsection \<open>joinRoom\<close>

text \<open>
  The five error strings of the file, by what they say: "the room does not exist",
  "the room is full" and "the game has started" in \<^verbatim>\<open>joinRoom\<close>; "at least 2 players are
  needed to start the game" and "only the host can start the game" in the startGame
  handler.
\<close>

datatype error = RoomNotFound | RoomFull | GameAlreadyStarted | InsufficientPlayers | NotHost

text \<open>
  The result object: \<^verbatim>\<open>{ success: false, error }\<close> is \<open>Inl\<close>,
  \<^verbatim>\<open>{ success: true, room, seat, player }\<close> is \<open>Inr\<close>.
\<close>

type_synonym join_result = "error + room \<times> nat \<times> player"

definition joinRoom :: "registry \<Rightarrow> roomId \<Rightarrow> socketId \<Rightarrow> jsval \<Rightarrow> registry \<times> join_result" where
  "joinRoom rooms roomId playerId playerName =
     (case map_of rooms roomId of
        None \<Rightarrow> (rooms, Inl RoomNotFound)
      | Some room \<Rightarrow>
          if length (players room) \<ge> 4 then (rooms, Inl RoomFull)
          else if status room \<noteq> Waiting then (rooms, Inl GameAlreadyStarted)
          else
            (let seat' = length (players room);
                 player = \<lparr> id' = playerId,
                            name = js_or playerName (JStr (player_prefix @ decimal (seat' + 1))),
                            isHost = False, seat = seat' \<rparr>;
                 room' = room \<lparr> players := players room @ [player] \<rparr>
             in (AList.update roomId room' rooms, Inr (room', seat', player))))"

subsection \<open>leaveRoom\<close>

text \<open>What \<^verbatim>\<open>leaveRoom\<close> does to the room object it found.\<close>

definition leaveRoom_room :: "room \<Rightarrow> socketId \<Rightarrow> room" where
  "leaveRoom_room room playerId =
     (let leavingPlayer = find (\<lambda>p. id' p = playerId) (players room);
          wasHost = (case leavingPlayer of None \<Rightarrow> False | Some p \<Rightarrow> isHost p);
          room1 = room \<lparr> players := filter (\<lambda>p. id' p \<noteq> playerId) (players room) \<rparr>
      in if length (players room1) = 0 then room1
         else if wasHost \<and> length (players room1) > 0
              then room1 \<lparr> players := (players room1)[0 := (players room1 ! 0) \<lparr> isHost := True \<rparr>],
                           hostId := id' (players room1 ! 0) \<rparr>
              else room1)"

definition leaveRoom :: "registry \<Rightarrow> roomId \<Rightarrow> socketId \<Rightarrow> registry" where
  "leaveRoom rooms roomId playerId =
     (case map_of rooms roomId of
        None \<Rightarrow> rooms
      | Some room \<Rightarrow>
          (let room' = leaveRoom_room room playerId
           in if length (players room') = 0 then AList.delete roomId rooms
              else AList.update roomId room' rooms))"

text \<open>
  The earlier revision of the file (\<^verbatim>\<open>src/unnamed/part_000\<close>) looks the leaving player
  up after the filter has removed it, so the lookup finds nothing. That revision has
  no \<^verbatim>\<open>hostId\<close> field; the field is carried along untouched here.
\<close>

definition leaveRoom_room_part000 :: "room \<Rightarrow> socketId \<Rightarrow> room" where
  "leaveRoom_room_part000 room playerId =
     (let room1 = room \<lparr> players := filter (\<lambda>p. id' p \<noteq> playerId) (players room) \<rparr>
      in if length (players room1) = 0 then room1
         else
           (let wasHost = (case find (\<lambda>p. id' p = playerId) (players room1) of
                             None \<Rightarrow> False | Some p \<Rightarrow> isHost p)
            in if wasHost \<and> length (players room1) > 0
               then room1 \<lparr> players := (players room1)[0 := (players room1 ! 0) \<lparr> isHost := True \<rparr>] \<rparr>
               else room1))"

section \<open>The socket handlers\<close>

text \<open>
  What a handler does besides changing the registry: it emits a message to the socket
  (\<^verbatim>\<open>socket.emit\<close>), to a channel group (\<^verbatim>\<open>io.to(roomId).emit\<close>) or to a group without
  the sender (\<^verbatim>\<open>socket.to(roomId).emit\<close>), it answers the acknowledgement callback, or it
  sets a timer. Console output is left out.
\<close>

datatype target = ToSocket socketId | ToRoom roomId | ToRoomExcept roomId socketId

datatype message =
    RoomCreated roomId nat bool
  | RoomState "player list" status jsobject socketId bool
  | RoomJoined roomId nat bool player
  | ErrorMessage error
  | GameStarted "player list" jsobject status socketId
  | GameReadyNotify jsval
  | GameStateSync jsval nat bool
  | ActionBroadcast jsval jsval nat jsval bool
  | PlayerDisconnected socketId socketId

datatype ack = CreateAck roomId | JoinAck join_result

text \<open>
  \<open>SetTimeout roomId sid ms\<close> is the one timer of the file: the callback of
  \<^verbatim>\<open>playerAction\<close>, closed over the socket \<open>sid\<close>, the \<open>roomId\<close>, the room object and the
  player object, to run after \<open>ms\<close> milliseconds.
\<close>

datatype effect = Emit target message | Ack ack | SetTimeout roomId socketId nat

text \<open>
  The state of the server: the registry, and the channel groups of the transport
  (\<^verbatim>\<open>socket.join\<close>, \<^verbatim>\<open>socket.leave\<close>; the transport takes a socket out of every group
  when it disconnects).
\<close>

record server =
  rooms :: registry
  groups :: "roomId \<Rightarrow> socketId set"

definition init :: server where
  "init = \<lparr> rooms = [], groups = (\<lambda>r. {}) \<rparr>"

text \<open>Who an emission is addressed to, given the groups.\<close>

fun recipients :: "(roomId \<Rightarrow> socketId set) \<Rightarrow> target \<Rightarrow> socketId set" where
  "recipients g (ToSocket sid) = {sid}"
| "recipients g (ToRoom roomId) = g roomId"
| "recipients g (ToRoomExcept roomId sid) = g roomId - {sid}"

definition broadcastRoomState :: "registry \<Rightarrow> roomId \<Rightarrow> effect list" where
  "broadcastRoomState rs roomId =
     (case map_of rs roomId of
        None \<Rightarrow> []
      | Some room \<Rightarrow>
          [Emit (ToRoom roomId)
             (RoomState (players room) (status room) (settings room) (hostId room) (gameReady room))])"

text \<open>
  The handlers, one per message; \<open>sid\<close> is \<^verbatim>\<open>socket.id\<close>, \<open>callback\<close> says whether the client
  passed an acknowledgement callback, \<open>connected\<close> is \<^verbatim>\<open>socket.connected\<close>.
\<close>

definition on_createRoom :: "server \<Rightarrow> socketId \<Rightarrow> roomId \<Rightarrow> jsobject option \<Rightarrow> bool \<Rightarrow> server \<times> effect list" where
  "on_createRoom st sid drawn settings_arg callback =
     (let (rs, roomId) = createRoom (rooms st) drawn sid settings_arg
      in (\<lparr> rooms = rs, groups = (groups st)(roomId := insert sid (groups st roomId)) \<rparr>,
          [Emit (ToSocket sid) (RoomCreated roomId 0 True)]
          @ broadcastRoomState rs roomId
          @ (if callback then [Ack (CreateAck roomId)] else [])))"

definition on_joinRoom :: "server \<Rightarrow> socketId \<Rightarrow> roomId \<Rightarrow> jsval \<Rightarrow> bool \<Rightarrow> server \<times> effect list" where
  "on_joinRoom st sid roomId playerName callback =
     (let (rs, result) = joinRoom (rooms st) roomId sid playerName
      in case result of
           Inr (room, seat', player) \<Rightarrow>
             (\<lparr> rooms = rs, groups = (groups st)(roomId := insert sid (groups st roomId)) \<rparr>,
              [Emit (ToSocket sid) (RoomJoined roomId seat' False player)]
              @ broadcastRoomState rs roomId
              @ (if callback then [Ack (JoinAck result)] else []))
         | Inl e \<Rightarrow>
             (st \<lparr> rooms := rs \<rparr>, if callback then [Ack (JoinAck result)] else []))"

definition on_leaveRoom :: "server \<Rightarrow> socketId \<Rightarrow> roomId \<Rightarrow> server \<times> effect list" where
  "on_leaveRoom st sid roomId =
     (let rs = leaveRoom (rooms st) roomId sid
      in (\<lparr> rooms = rs, groups = (groups st)(roomId := groups st roomId - {sid}) \<rparr>,
          broadcastRoomState rs roomId))"

definition on_startGame :: "server \<Rightarrow> socketId \<Rightarrow> bool \<Rightarrow> roomId \<Rightarrow> server \<times> effect list" where
  "on_startGame st sid connected roomId =
     (case map_of (rooms st) roomId of
        None \<Rightarrow> (st, if connected then [Emit (ToSocket sid) (ErrorMessage InsufficientPlayers)] else [])
      | Some room \<Rightarrow>
          if length (players room) < 2
          then (st, if connected then [Emit (ToSocket sid) (ErrorMessage InsufficientPlayers)] else [])
          else
            (case find (\<lambda>p. id' p = sid) (players room) of
               None \<Rightarrow> (st, if connected then [Emit (ToSocket sid) (ErrorMessage NotHost)] else [])
             | Some host \<Rightarrow>
                 if \<not> isHost host
                 then (st, if connected then [Emit (ToSocket sid) (ErrorMessage NotHost)] else [])
                 else
                   (let room' = room \<lparr> status := Playing, gameReady := False \<rparr>
                    in (st \<lparr> rooms := AList.update roomId room' (rooms st) \<rparr>,
                        [Emit (ToRoom roomId)
                           (GameStarted (players room') (settings room') Playing (hostId room'))]))))"

definition on_gameReady :: "server \<Rightarrow> socketId \<Rightarrow> roomId \<Rightarrow> server \<times> effect list" where
  "on_gameReady st sid roomId =
     (case map_of (rooms st) roomId of
        None \<Rightarrow> (st, [])
      | Some room \<Rightarrow>
          if hostId room \<noteq> sid then (st, [])
          else
            (let room' = room \<lparr> gameReady := True \<rparr>
             in (st \<lparr> rooms := AList.update roomId room' (rooms st) \<rparr>,
                 [Emit (ToRoom roomId) (GameReadyNotify (gameState room'))])))"

definition on_gameStateUpdate :: "server \<Rightarrow> socketId \<Rightarrow> roomId \<Rightarrow> jsval \<Rightarrow> server \<times> effect list" where
  "on_gameStateUpdate st sid roomId gameState' =
     (case map_of (rooms st) roomId of
        None \<Rightarrow> (st, [])
      | Some room \<Rightarrow>
          (case find (\<lambda>p. id' p = sid) (players room) of
             None \<Rightarrow> (st, [])
           | Some player \<Rightarrow>
               (st \<lparr> rooms := AList.update roomId (room \<lparr> gameState := gameState' \<rparr>) (rooms st) \<rparr>,
                [Emit (ToRoomExcept roomId sid)
                   (GameStateSync gameState' (seat player) (isHost player))])))"

definition on_playerAction :: "server \<Rightarrow> socketId \<Rightarrow> roomId \<Rightarrow> jsval \<Rightarrow> jsval \<Rightarrow> server \<times> effect list" where
  "on_playerAction st sid roomId action params =
     (case map_of (rooms st) roomId of
        None \<Rightarrow> (st, [])
      | Some room \<Rightarrow>
          (case find (\<lambda>p. id' p = sid) (players room) of
             None \<Rightarrow> (st, [])
           | Some player \<Rightarrow>
               (st,
                [Emit (ToRoom roomId)
                   (ActionBroadcast action params (seat player) (name player) (isHost player))]
                @ (if truthy (gameState room) then [SetTimeout roomId sid 100] else []))))"

text \<open>
  The callback of that timer. It reads the room object and the player object it was
  closed over when it runs; \<open>room_now\<close> and \<open>player_now\<close> are what the two objects hold
  at that moment, whatever has happened to them since the timer was set. The body has
  no test: it is the one \<^verbatim>\<open>socket.to(roomId).emit\<close>.
\<close>

definition delayed_gameStateSync :: "roomId \<Rightarrow> socketId \<Rightarrow> room \<Rightarrow> player \<Rightarrow> effect list" where
  "delayed_gameStateSync roomId sid room_now player_now =
     [Emit (ToRoomExcept roomId sid)
        (GameStateSync (gameState room_now) (seat player_now) (isHost player_now))]"

text \<open>
  The loop of the disconnect handler over \<^verbatim>\<open>rooms.entries()\<close>. The only entry a round
  deletes is the one it is visiting, so the loop runs over the keys present when it
  starts and reads each room when it comes to it. After \<^verbatim>\<open>leaveRoom\<close> the handler still
  holds the room object, also when the registry no longer does.
\<close>

fun disconnect_loop :: "roomId list \<Rightarrow> socketId \<Rightarrow> registry \<Rightarrow> registry \<times> effect list" where
  "disconnect_loop [] sid rs = (rs, [])"
| "disconnect_loop (roomId # rest) sid rs =
     (case map_of rs roomId of
        None \<Rightarrow> disconnect_loop rest sid rs
      | Some room \<Rightarrow>
          if list_ex (\<lambda>p. id' p = sid) (players room)
          then
            (let rs' = leaveRoom rs roomId sid;
                 room' = leaveRoom_room room sid;
                 es = broadcastRoomState rs' roomId
                      @ (if status room' = Playing
                         then [Emit (ToRoom roomId) (PlayerDisconnected sid (hostId room'))]
                         else []);
                 (rs'', es') = disconnect_loop rest sid rs'
             in (rs'', es @ es'))
          else disconnect_loop rest sid rs)"

definition on_disconnect :: "server \<Rightarrow> socketId \<Rightarrow> server \<times> effect list" where
  "on_disconnect st sid =
     (let (rs, es) = disconnect_loop (map fst (rooms st)) sid (rooms st)
      in (\<lparr> rooms = rs, groups = (\<lambda>r. groups st r - {sid}) \<rparr>, es))"

subsection \<open>Runs of the server\<close>

text \<open>
  The messages a socket can send that change the state. \<^verbatim>\<open>getRoomState\<close> and
  \<^verbatim>\<open>requestTurnInfo\<close> only read.
\<close>

datatype request =
    CreateRoom roomId "jsobject option" bool
  | JoinRoom roomId jsval bool
  | LeaveRoom roomId
  | StartGame bool roomId
  | GameReady roomId
  | GameStateUpdate roomId jsval
  | PlayerAction roomId jsval jsval
  | Disconnect

fun handle :: "server \<Rightarrow> socketId \<Rightarrow> request \<Rightarrow> server \<times> effect list" where
  "handle st sid (CreateRoom drawn settings_arg callback) = on_createRoom st sid drawn settings_arg callback"
| "handle st sid (JoinRoom roomId playerName callback) = on_joinRoom st sid roomId playerName callback"
| "handle st sid (LeaveRoom roomId) = on_leaveRoom st sid roomId"
| "handle st sid (StartGame connected roomId) = on_startGame st sid connected roomId"
| "handle st sid (GameReady roomId) = on_gameReady st sid roomId"
| "handle st sid (GameStateUpdate roomId gameState') = on_gameStateUpdate st sid roomId gameState'"
| "handle st sid (PlayerAction roomId action params) = on_playerAction st sid roomId action params"
| "handle st sid Disconnect = on_disconnect st sid"

text \<open>
  The states the server can be in: the empty one it starts with, and every state a
  handler leaves, for any socket and any message. (A socket that sends after its
  disconnect, or a handler whose socket is not connected, is allowed for: the states
  of the real server are among these.)
\<close>

inductive reachable :: "server \<Rightarrow> bool" where
  start: "reachable init"
| step: "reachable st \<Longrightarrow> reachable (fst (handle st sid req))"

fun run :: "server \<Rightarrow> (socketId \<times> request) list \<Rightarrow> server" where
  "run st [] = st"
| "run st ((sid, req) # rest) = run (fst (handle st sid req)) rest"

text \<open>A sequence of \<^verbatim>\<open>joinRoom\<close> calls on one room, with the result of each.\<close>

fun joinRoom_seq :: "registry \<Rightarrow> roomId \<Rightarrow> (socketId \<times> jsval) list \<Rightarrow> registry \<times> join_result list" where
  "joinRoom_seq rs roomId [] = (rs, [])"
| "joinRoom_seq rs roomId ((playerId, playerName) # rest) =
     (let (rs', result) = joinRoom rs roomId playerId playerName;
          (rs'', results) = joinRoom_seq rs' roomId rest
      in (rs'', result # results))"

section \<open>Invariants of the registry\<close>

text \<open>
  The host of a room is the first player of its sequence: \<^verbatim>\<open>createRoom\<close> puts the host
  first, \<^verbatim>\<open>joinRoom\<close> appends, \<^verbatim>\<open>leaveRoom\<close> keeps the order and promotes index 0.
\<close>

definition host_first :: "room \<Rightarrow> bool" where
  "host_first room =
     (case players room of
        [] \<Rightarrow> False
      | p # ps \<Rightarrow> isHost p \<and> hostId room = id' p \<and> list_all (\<lambda>q. \<not> isHost q) ps)"

definition registry_inv :: "registry \<Rightarrow> bool" where
  "registry_inv rs = (\<forall>roomId room. map_of rs roomId = Some room \<longrightarrow> host_first room)"

text \<open>Every player of a stored room is in the channel group of that room.\<close>

definition groups_inv :: "server \<Rightarrow> bool" where
  "groups_inv st =
     (\<forall>roomId room. map_of (rooms st) roomId = Some room \<longrightarrow>
        (\<forall>p \<in> set (players room). id' p \<in> groups st roomId))"

definition state_inv :: "server \<Rightarrow> bool" where
  "state_inv st = (registry_inv (rooms st) \<and> groups_inv st)"

section \<open>Views and scenarios\<close>

text \<open>A player and a room without the payloads, for stating what a run leaves behind.\<close>

definition player_view :: "player \<Rightarrow> socketId \<times> bool \<times> nat" where
  "player_view p = (id' p, isHost p, seat p)"

definition room_view :: "room \<Rightarrow> socketId \<times> status \<times> (socketId \<times> bool \<times> nat) list" where
  "room_view room = (hostId room, status room, map player_view (players room))"

text \<open>A host and one guest.\<close>

definition two_players :: server where
  "two_players =
     run init [(''h'', CreateRoom ''R'' None True), (''B'', JoinRoom ''R'' (JStr ''Bob'') True)]"

text \<open>Four players, two of them leave, a fifth joins: all while the room is waiting.\<close>

definition rejoined :: server where
  "rejoined =
     run init
       [(''h'', CreateRoom ''R'' None True),
        (''B'', JoinRoom ''R'' JUndefined True),
        (''C'', JoinRoom ''R'' JUndefined True),
        (''D'', JoinRoom ''R'' JUndefined True),
        (''B'', LeaveRoom ''R''),
        (''C'', LeaveRoom ''R''),
        (''E'', JoinRoom ''R'' JUndefined True)]"

text \<open>A room with its host alone.\<close>

definition one_player :: server where
  "one_player = run init [(''h'', CreateRoom ''R'' None True)]"

text \<open>A host and two guests.\<close>

definition three_players :: server where
  "three_players =
     run init
       [(''h'', CreateRoom ''R'' None True),
        (''B'', JoinRoom ''R'' JUndefined True),
        (''C'', JoinRoom ''R'' JUndefined True)]"

text \<open>A full room whose game has started.\<close>

definition full_playing :: server where
  "full_playing =
     run init
       [(''h'', CreateRoom ''R'' None True),
        (''B'', JoinRoom ''R'' JUndefined True),
        (''C'', JoinRoom ''R'' JUndefined True),
        (''D'', JoinRoom ''R'' JUndefined True),
        (''h'', StartGame True ''R'')]"

text \<open>Two players whose game has started.\<close>

definition two_playing :: server where
  "two_playing =
     run init
       [(''h'', CreateRoom ''R'' None True),
        (''B'', JoinRoom ''R'' JUndefined True),
        (''h'', StartGame True ''R'')]"

text \<open>The seat a join was given, if it succeeded.\<close>

definition assigned_seat :: "join_result \<Rightarrow> nat option" where
  "assigned_seat result = (case result of Inl e \<Rightarrow> None | Inr (room, seat', player) \<Rightarrow> Some seat')"

text \<open>The object \<^verbatim>\<open>createRoom\<close> reads its settings from: the caller's, or the empty one.\<close>

definition supplied :: "jsobject option \<Rightarrow> jsobject" where
  "supplied settings_arg = (case settings_arg of None \<Rightarrow> Map.empty | Some obj \<Rightarrow> obj)"

text \<open>The three defaults, as a table.\<close>

definition default_points :: "string \<Rightarrow> jsval option" where
  "default_points k =
     (if k = ''basePoints'' then Some (JNum 2000)
      else if k = ''perFanPoints'' then Some (JNum 1000)
      else if k = ''initialPoints'' then Some (JNum 100000)
      else None)"

text \<open>A game of two with a stored state; then the guest acts and leaves.\<close>

definition before_action :: server where
  "before_action =
     run init
       [(''h'', CreateRoom ''R'' None True),
        (''B'', JoinRoom ''R'' (JStr ''Bob'') True),
        (''h'', StartGame True ''R''),
        (''h'', GameStateUpdate ''R'' (JNum 1))]"

definition sender_left :: server where
  "sender_left =
     run before_action
       [(''B'', PlayerAction ''R'' (JStr ''discard'') JNull),
        (''B'', LeaveRoom ''R'')]"

section \<open>The earlier revision never transfers the host\<close>

lemma leaveRoom_room_part000_no_transfer:
  "leaveRoom_room_part000 room playerId =
     room \<lparr> players := filter (\<lambda>p. id' p \<noteq> playerId) (players room) \<rparr>"
proof -
  have "find (\<lambda>p. id' p = playerId) (filter (\<lambda>p. id' p \<noteq> playerId) (players room)) = None"
    by (simp add: find_None_iff)
  then show ?thesis
    by (simp add: leaveRoom_room_part000_def Let_def)
qed

section \<open>The registry functions, by lookup\<close>

lemma map_of_createRoom:
  "map_of (fst (createRoom rs roomId h s)) r =
     (if r = roomId
      then Some \<lparr> players = [\<lparr> id' = h,
                        name = js_or (get_prop (case s of None \<Rightarrow> Map.empty | Some obj \<Rightarrow> obj) ''playerName'') (JStr (player_prefix @ ''1'')),
                        isHost = True, seat = 0 \<rparr>],
           gameState = JNull, hostId = h,
           settings = merge_settings (case s of None \<Rightarrow> Map.empty | Some obj \<Rightarrow> obj),
           status = Waiting, gameReady = False \<rparr>
      else map_of rs r)"
  by (simp add: createRoom_def Let_def update_conv')

lemma map_of_joinRoom:
  "map_of (fst (joinRoom rs roomId sid nm)) r =
     (case snd (joinRoom rs roomId sid nm) of
        Inl e \<Rightarrow> map_of rs r
      | Inr (room', s, p) \<Rightarrow> if r = roomId then Some room' else map_of rs r)"
  by (simp add: joinRoom_def Let_def update_conv' split: option.splits)

lemma joinRoom_Inr:
  "snd (joinRoom rs roomId sid nm) = Inr (room', s, p) \<Longrightarrow>
   \<exists>room. map_of rs roomId = Some room \<and> length (players room) < 4 \<and> status room = Waiting \<and>
     s = length (players room) \<and> id' p = sid \<and> \<not> isHost p \<and> seat p = s \<and>
     room' = room \<lparr> players := players room @ [p] \<rparr>"
  by (auto simp add: joinRoom_def Let_def split: option.splits if_splits)

lemma map_of_leaveRoom:
  "map_of (leaveRoom rs roomId sid) r =
     (if r = roomId
      then (case map_of rs roomId of
              None \<Rightarrow> None
            | Some room \<Rightarrow> if players (leaveRoom_room room sid) = [] then None
                           else Some (leaveRoom_room room sid))
      else map_of rs r)"
  by (simp add: leaveRoom_def Let_def update_conv' delete_conv' split: option.splits)

lemma players_leaveRoom_room:
  "players (leaveRoom_room room sid) = [] \<longleftrightarrow> filter (\<lambda>p. id' p \<noteq> sid) (players room) = []"
  by (simp add: leaveRoom_room_def Let_def)

lemma find_tail_not_host:
  "list_all (\<lambda>q. \<not> isHost q) ps \<Longrightarrow> find P ps = Some x \<Longrightarrow> \<not> isHost x"
  by (induction ps) (auto split: if_splits)

lemma host_first_leaveRoom_room:
  assumes "host_first room" and "players (leaveRoom_room room sid) \<noteq> []"
  shows "host_first (leaveRoom_room room sid)"
proof -
  from assms(1) obtain p ps where ps: "players room = p # ps" "isHost p" "hostId room = id' p"
      "list_all (\<lambda>q. \<not> isHost q) ps"
    by (auto simp add: host_first_def split: list.splits)
  show ?thesis
  proof (cases "id' p = sid")
    case True
    with assms(2) ps obtain q qs where q: "filter (\<lambda>p. id' p \<noteq> sid) ps = q # qs"
      by (cases "filter (\<lambda>p. id' p \<noteq> sid) ps") (auto simp add: leaveRoom_room_def Let_def)
    then have "set qs \<subseteq> set ps"
      by (metis filter_is_subset set_subset_Cons subset_trans)
    with ps(4) have "list_all (\<lambda>q. \<not> isHost q) qs"
      by (auto simp add: list_all_iff)
    with True ps q show ?thesis
      by (simp add: leaveRoom_room_def Let_def host_first_def)
  next
    case False
    have "\<not> (case find (\<lambda>p. id' p = sid) ps of None \<Rightarrow> False | Some p \<Rightarrow> isHost p)"
      using find_tail_not_host [OF ps(4)] by (auto split: option.splits)
    with False ps show ?thesis
      by (simp add: leaveRoom_room_def Let_def host_first_def list_all_iff)
  qed
qed

lemma registry_inv_createRoom:
  "registry_inv rs \<Longrightarrow> registry_inv (fst (createRoom rs roomId h s))"
  by (simp add: registry_inv_def map_of_createRoom host_first_def)

lemma registry_inv_joinRoom:
  assumes "registry_inv rs"
  shows "registry_inv (fst (joinRoom rs roomId sid nm))"
proof (cases "snd (joinRoom rs roomId sid nm)")
  case (Inl e)
  with assms show ?thesis by (simp add: registry_inv_def map_of_joinRoom)
next
  case (Inr t)
  obtain room' s p where t: "t = (room', s, p)" by (cases t)
  from joinRoom_Inr [OF Inr [unfolded t]] obtain room where
    room: "map_of rs roomId = Some room" "\<not> isHost p" "room' = room \<lparr> players := players room @ [p] \<rparr>"
    by blast
  from assms room(1) have "host_first room" by (simp add: registry_inv_def)
  with room(2,3) have "host_first room'"
    by (auto simp add: host_first_def split: list.splits)
  with assms Inr t show ?thesis
    by (simp add: registry_inv_def map_of_joinRoom)
qed

lemma registry_inv_leaveRoom:
  "registry_inv rs \<Longrightarrow> registry_inv (leaveRoom rs roomId sid)"
  by (auto simp add: registry_inv_def map_of_leaveRoom host_first_leaveRoom_room
      split: option.splits if_splits)

lemma registry_inv_update:
  "registry_inv rs \<Longrightarrow> host_first room \<Longrightarrow> registry_inv (AList.update roomId room rs)"
  by (simp add: registry_inv_def update_conv')

lemma fst_disconnect_loop_Cons:
  "fst (disconnect_loop (k # ks) sid rs) =
     fst (disconnect_loop ks sid
       (case map_of rs k of
          None \<Rightarrow> rs
        | Some room \<Rightarrow> if list_ex (\<lambda>p. id' p = sid) (players room) then leaveRoom rs k sid else rs))"
  by (simp add: Let_def split: option.splits prod.splits)

lemma registry_inv_disconnect_loop:
  "registry_inv rs \<Longrightarrow> registry_inv (fst (disconnect_loop ks sid rs))"
proof (induction ks arbitrary: rs)
  case Nil
  then show ?case by simp
next
  case (Cons k ks)
  show ?case
    unfolding fst_disconnect_loop_Cons
    by (rule Cons.IH) (simp add: Cons.prems registry_inv_leaveRoom split: option.splits)
qed

lemma leaveRoom_room_cases:
  "leaveRoom_room room sid = room \<lparr> players := filter (\<lambda>p. id' p \<noteq> sid) (players room) \<rparr> \<or>
   (\<exists>q qs. filter (\<lambda>p. id' p \<noteq> sid) (players room) = q # qs \<and>
      leaveRoom_room room sid = room \<lparr> players := q \<lparr> isHost := True \<rparr> # qs, hostId := id' q \<rparr>)"
  by (cases "filter (\<lambda>p. id' p \<noteq> sid) (players room)") (simp_all add: leaveRoom_room_def Let_def)

lemma ids_leaveRoom_room:
  "map id' (players (leaveRoom_room room sid)) = map id' (filter (\<lambda>p. id' p \<noteq> sid) (players room))"
  using leaveRoom_room_cases [of room sid] by auto

lemma not_member_leaveRoom_room:
  "\<not> list_ex (\<lambda>p. id' p = sid) (players (leaveRoom_room room sid))"
proof -
  have "sid \<notin> set (map id' (players (leaveRoom_room room sid)))"
    unfolding ids_leaveRoom_room by auto
  then show ?thesis by (auto simp add: list_ex_iff)
qed

lemma map_of_disconnect_loop:
  "map_of (fst (disconnect_loop ks sid rs)) r =
     (if r \<in> set ks
      then (case map_of rs r of
              None \<Rightarrow> None
            | Some room \<Rightarrow>
                if list_ex (\<lambda>p. id' p = sid) (players room)
                then (if players (leaveRoom_room room sid) = [] then None
                      else Some (leaveRoom_room room sid))
                else Some room)
      else map_of rs r)"
proof (induction ks arbitrary: rs)
  case Nil
  then show ?case by simp
next
  case (Cons k ks)
  show ?case
    unfolding fst_disconnect_loop_Cons Cons.IH
    by (auto simp add: map_of_leaveRoom not_member_leaveRoom_room split: option.splits)
qed

lemma member_ids_leaveRoom_room:
  "p \<in> set (players (leaveRoom_room room sid)) \<Longrightarrow>
   id' p \<noteq> sid \<and> id' p \<in> id' ` set (players room)"
proof -
  assume "p \<in> set (players (leaveRoom_room room sid))"
  then have "id' p \<in> set (map id' (players (leaveRoom_room room sid)))" by simp
  then show ?thesis unfolding ids_leaveRoom_room by auto
qed

lemma rooms_on_createRoom:
  "rooms (fst (on_createRoom st sid drawn s cb)) = fst (createRoom (rooms st) drawn sid s)"
  by (simp add: on_createRoom_def split: prod.splits)

lemma rooms_on_joinRoom:
  "rooms (fst (on_joinRoom st sid roomId nm cb)) = fst (joinRoom (rooms st) roomId sid nm)"
  by (simp add: on_joinRoom_def split: prod.splits sum.splits)

lemma rooms_on_leaveRoom:
  "rooms (fst (on_leaveRoom st sid roomId)) = leaveRoom (rooms st) roomId sid"
  by (simp add: on_leaveRoom_def Let_def)

lemma rooms_on_disconnect:
  "rooms (fst (on_disconnect st sid)) = fst (disconnect_loop (map fst (rooms st)) sid (rooms st))"
  by (simp add: on_disconnect_def split: prod.splits)

lemma state_inv_on_createRoom:
  assumes "state_inv st"
  shows "state_inv (fst (on_createRoom st sid drawn s cb))"
proof -
  have "groups_inv (fst (on_createRoom st sid drawn s cb))"
    using assms
    by (auto simp add: state_inv_def groups_inv_def on_createRoom_def createRoom_def Let_def
        update_conv' split: if_splits)
  with assms show ?thesis
    by (simp add: state_inv_def rooms_on_createRoom registry_inv_createRoom)
qed

lemma state_inv_on_joinRoom:
  assumes "state_inv st"
  shows "state_inv (fst (on_joinRoom st sid roomId nm cb))"
proof -
  have "groups_inv (fst (on_joinRoom st sid roomId nm cb))"
  proof (cases "snd (joinRoom (rooms st) roomId sid nm)")
    case (Inl e)
    then have "fst (joinRoom (rooms st) roomId sid nm) = rooms st"
      by (auto simp add: joinRoom_def Let_def split: option.splits if_splits)
    with Inl have "joinRoom (rooms st) roomId sid nm = (rooms st, Inl e)"
      by (metis prod.collapse)
    then have "fst (on_joinRoom st sid roomId nm cb) = st"
      by (simp add: on_joinRoom_def)
    with assms show ?thesis
      by (simp add: state_inv_def)
  next
    case (Inr t)
    obtain room' s p where t: "t = (room', s, p)" by (cases t)
    from joinRoom_Inr [OF Inr [unfolded t]] obtain room where
      room: "map_of (rooms st) roomId = Some room" "id' p = sid"
        "room' = room \<lparr> players := players room @ [p] \<rparr>"
      by blast
    have m: "map_of (fst (joinRoom (rooms st) roomId sid nm)) r =
        (if r = roomId then Some room' else map_of (rooms st) r)" for r
      by (simp add: map_of_joinRoom Inr t)
    from assms have g: "\<And>r rm q. map_of (rooms st) r = Some rm \<Longrightarrow> q \<in> set (players rm) \<Longrightarrow> id' q \<in> groups st r"
      by (auto simp add: state_inv_def groups_inv_def)
    from Inr t obtain rs' where "joinRoom (rooms st) roomId sid nm = (rs', Inr (room', s, p))"
      by (cases "joinRoom (rooms st) roomId sid nm") auto
    then have "groups (fst (on_joinRoom st sid roomId nm cb)) = (groups st)(roomId := insert sid (groups st roomId))"
      by (simp add: on_joinRoom_def)
    then show ?thesis
      using room g
      by (auto simp add: groups_inv_def rooms_on_joinRoom m split: if_splits)
  qed
  with assms show ?thesis
    by (simp add: state_inv_def rooms_on_joinRoom registry_inv_joinRoom)
qed

lemma state_inv_on_leaveRoom:
  assumes "state_inv st"
  shows "state_inv (fst (on_leaveRoom st sid roomId))"
proof -
  from assms have g: "\<And>r rm q. map_of (rooms st) r = Some rm \<Longrightarrow> q \<in> set (players rm) \<Longrightarrow> id' q \<in> groups st r"
    by (auto simp add: state_inv_def groups_inv_def)
  have "groups (fst (on_leaveRoom st sid roomId)) = (groups st)(roomId := groups st roomId - {sid})"
    by (simp add: on_leaveRoom_def Let_def)
  then have "groups_inv (fst (on_leaveRoom st sid roomId))"
    using g
    by (auto simp add: groups_inv_def rooms_on_leaveRoom map_of_leaveRoom
        dest!: member_ids_leaveRoom_room split: if_splits option.splits)
  with assms show ?thesis
    by (simp add: state_inv_def rooms_on_leaveRoom registry_inv_leaveRoom)
qed

lemma map_of_disconnect_all:
  "map_of (fst (disconnect_loop (map fst rs) sid rs)) r =
     (case map_of rs r of
        None \<Rightarrow> None
      | Some room \<Rightarrow>
          if list_ex (\<lambda>p. id' p = sid) (players room)
          then (if players (leaveRoom_room room sid) = [] then None
                else Some (leaveRoom_room room sid))
          else Some room)"
proof (cases "map_of rs r")
  case None
  then show ?thesis by (simp add: map_of_disconnect_loop)
next
  case (Some room)
  then have "r \<in> set (map fst rs)"
    by (metis map_of_eq_None_iff option.distinct(1) set_map)
  with Some show ?thesis by (simp add: map_of_disconnect_loop)
qed

lemma state_inv_on_disconnect:
  assumes "state_inv st"
  shows "state_inv (fst (on_disconnect st sid))"
proof -
  from assms have g: "\<And>r rm q. map_of (rooms st) r = Some rm \<Longrightarrow> q \<in> set (players rm) \<Longrightarrow> id' q \<in> groups st r"
    by (auto simp add: state_inv_def groups_inv_def)
  have "groups (fst (on_disconnect st sid)) = (\<lambda>r. groups st r - {sid})"
    by (simp add: on_disconnect_def split: prod.splits)
  then have "groups_inv (fst (on_disconnect st sid))"
    using g
    by (auto simp add: groups_inv_def rooms_on_disconnect map_of_disconnect_all list_ex_iff
        dest!: member_ids_leaveRoom_room split: if_splits option.splits)
  with assms show ?thesis
    by (simp add: state_inv_def rooms_on_disconnect registry_inv_disconnect_loop)
qed

lemma state_inv_update_fields:
  assumes "state_inv st" and "map_of (rooms st) roomId = Some room"
    and "players room' = players room" and "hostId room' = hostId room"
  shows "state_inv (st \<lparr> rooms := AList.update roomId room' (rooms st) \<rparr>)"
proof -
  from assms(1,2) have "host_first room" by (simp add: state_inv_def registry_inv_def)
  with assms(3,4) have "host_first room'" by (auto simp add: host_first_def split: list.splits)
  with assms show ?thesis
    by (auto simp add: state_inv_def registry_inv_def groups_inv_def update_conv' split: if_splits)
qed

lemma state_inv_on_startGame:
  "state_inv st \<Longrightarrow> state_inv (fst (on_startGame st sid connected roomId))"
  by (auto simp add: on_startGame_def Let_def state_inv_update_fields split: option.splits)

lemma state_inv_on_gameReady:
  "state_inv st \<Longrightarrow> state_inv (fst (on_gameReady st sid roomId))"
  by (auto simp add: on_gameReady_def Let_def state_inv_update_fields split: option.splits)

lemma state_inv_on_gameStateUpdate:
  "state_inv st \<Longrightarrow> state_inv (fst (on_gameStateUpdate st sid roomId gs))"
  by (auto simp add: on_gameStateUpdate_def state_inv_update_fields split: option.splits)

lemma state_inv_on_playerAction:
  "state_inv st \<Longrightarrow> state_inv (fst (on_playerAction st sid roomId a ps))"
  by (auto simp add: on_playerAction_def split: option.splits)

lemma state_inv_handle:
  "state_inv st \<Longrightarrow> state_inv (fst (handle st sid req))"
  by (cases req)
    (simp_all add: state_inv_on_createRoom state_inv_on_joinRoom state_inv_on_leaveRoom
      state_inv_on_startGame state_inv_on_gameReady state_inv_on_gameStateUpdate
      state_inv_on_playerAction state_inv_on_disconnect)

lemma state_inv_init: "state_inv init"
  by (simp add: state_inv_def registry_inv_def groups_inv_def init_def)

lemma reachable_state_inv: "reachable st \<Longrightarrow> state_inv st"
  by (induction rule: reachable.induct) (simp_all add: state_inv_init state_inv_handle)

lemma reachable_run: "reachable st \<Longrightarrow> reachable (run st evs)"
  by (induction st evs rule: run.induct) (simp_all add: reachable.step)

lemmas handler_defs =
  init_def on_createRoom_def on_joinRoom_def on_leaveRoom_def on_startGame_def
  on_gameReady_def on_gameStateUpdate_def on_playerAction_def on_disconnect_def
  createRoom_def joinRoom_def leaveRoom_def leaveRoom_room_def broadcastRoomState_def
  player_view_def room_view_def js_or_def get_prop_def Let_def

lemma host_first_filter:
  "host_first room \<Longrightarrow> map id' (filter isHost (players room)) = [hostId room]"
proof -
  assume "host_first room"
  then obtain p ps where ps: "players room = p # ps" "isHost p" "hostId room = id' p"
      "list_all (\<lambda>q. \<not> isHost q) ps"
    by (auto simp add: host_first_def split: list.splits)
  from ps(4) have "filter isHost ps = []"
    by (simp add: list_all_iff filter_empty_conv)
  with ps show ?thesis by simp
qed

lemma reachable_host_first:
  "reachable st \<Longrightarrow> map_of (rooms st) roomId = Some room \<Longrightarrow> host_first room"
  using reachable_state_inv by (auto simp add: state_inv_def registry_inv_def)

section \<open>One host per room\<close>

text \<open>
  Claim C2. In every state the server can reach, by any sequence of createRoom, joinRoom,
  leaveRoom, startGame, gameReady, gameStateUpdate, playerAction and disconnect messages
  from any sockets, a stored room with at least one player has exactly one player entry
  with \<open>isHost\<close> set, and \<open>hostId\<close> is the id of that entry.
\<close>

theorem single_host_in_reachable_rooms:
  assumes "reachable st" and "map_of (rooms st) roomId = Some room" and "players room \<noteq> []"
  shows "length (filter isHost (players room)) = 1 \<and>
         map id' (filter isHost (players room)) = [hostId room]"
proof -
  from assms(1,2) have "host_first room"
    by (rule reachable_host_first)
  then have "map id' (filter isHost (players room)) = [hostId room]"
    by (rule host_first_filter)
  moreover from this have "length (filter isHost (players room)) = length [hostId room]"
    by (metis length_map)
  ultimately show ?thesis by simp
qed

theorem single_host_in_reachable_rooms_witness:
  "reachable two_players \<and>
   map_option room_view (map_of (rooms two_players) ''R'') =
     Some (''h'', Waiting, [(''h'', True, 0), (''B'', False, 1)]) \<and>
   players (the (map_of (rooms two_players) ''R'')) \<noteq> [] \<and>
   length (filter isHost (players (the (map_of (rooms two_players) ''R'')))) = 1 \<and>
   map id' (filter isHost (players (the (map_of (rooms two_players) ''R'')))) =
     [hostId (the (map_of (rooms two_players) ''R''))]"
proof -
  have r: "reachable two_players"
    unfolding two_players_def by (rule reachable_run) (rule reachable.start)
  have m: "map_of (rooms two_players) ''R'' = Some (the (map_of (rooms two_players) ''R''))"
    by (simp add: two_players_def handler_defs)
  have n: "players (the (map_of (rooms two_players) ''R'')) \<noteq> []"
    by (simp add: two_players_def handler_defs)
  have v: "map_option room_view (map_of (rooms two_players) ''R'') =
     Some (''h'', Waiting, [(''h'', True, 0), (''B'', False, 1)])"
    by (simp add: two_players_def handler_defs)
  from single_host_in_reachable_rooms [OF r m n] r n v show ?thesis by simp
qed

lemma leaveRoom_room_host:
  assumes "host_first room" and "hostId room = sid"
    and "filter (\<lambda>p. id' p \<noteq> sid) (players room) = q # qs"
  shows "leaveRoom_room room sid = room \<lparr> players := q \<lparr> isHost := True \<rparr> # qs, hostId := id' q \<rparr>"
    and "list_all (\<lambda>p. \<not> isHost p) qs"
proof -
  from assms(1) obtain p ps where ps: "players room = p # ps" "isHost p" "hostId room = id' p"
      "list_all (\<lambda>q. \<not> isHost q) ps"
    by (auto simp add: host_first_def split: list.splits)
  with assms(2) have "id' p = sid" by simp
  with ps assms(3) show "leaveRoom_room room sid = room \<lparr> players := q \<lparr> isHost := True \<rparr> # qs, hostId := id' q \<rparr>"
    by (simp add: leaveRoom_room_def Let_def)
  from ps(1) \<open>id' p = sid\<close> assms(3) have "filter (\<lambda>p. id' p \<noteq> sid) ps = q # qs"
    by simp
  then have "set qs \<subseteq> set ps"
    by (metis filter_is_subset set_subset_Cons subset_trans)
  with ps(4) show "list_all (\<lambda>p. \<not> isHost p) qs"
    by (auto simp add: list_all_iff)
qed

section \<open>The host leaves\<close>

text \<open>
  Claim C1, as the code has it. When the host of a stored room leaves and players
  remain, the room stays in the registry, the first of the remaining players in the
  sequence (the one who has been in the room longest) is promoted, it is the only
  entry with \<open>isHost\<close> set, and \<open>hostId\<close> becomes its id. That player has the smallest
  seat when the seats increase along the sequence.
\<close>

theorem host_leaves_first_remaining_promoted:
  assumes "reachable st" and "map_of (rooms st) roomId = Some room"
    and "hostId room = sid"
    and "filter (\<lambda>p. id' p \<noteq> sid) (players room) = q # qs"
  shows "map_of (leaveRoom (rooms st) roomId sid) roomId = Some (leaveRoom_room room sid) \<and>
         players (leaveRoom_room room sid) = q \<lparr> isHost := True \<rparr> # qs \<and>
         hostId (leaveRoom_room room sid) = id' q \<and>
         length (filter isHost (players (leaveRoom_room room sid))) = 1 \<and>
         (sorted_wrt (<) (map seat (players room)) \<longrightarrow> list_all (\<lambda>p. seat q < seat p) qs)"
proof -
  from assms(1,2) have hf: "host_first room" by (rule reachable_host_first)
  note l = leaveRoom_room_host [OF hf assms(3,4)]
  from l(2) have "filter isHost qs = []"
    by (simp add: list_all_iff filter_empty_conv)
  then have one: "length (filter isHost (players (leaveRoom_room room sid))) = 1"
    by (simp add: l(1))
  have "map_of (leaveRoom (rooms st) roomId sid) roomId = Some (leaveRoom_room room sid)"
    by (simp add: map_of_leaveRoom assms(2) l(1))
  moreover have "list_all (\<lambda>p. seat q < seat p) qs" if s: "sorted_wrt (<) (map seat (players room))"
  proof -
    from s have "sorted_wrt (\<lambda>a b. seat a < seat b) (players room)"
      by (simp add: sorted_wrt_map)
    then have "sorted_wrt (\<lambda>a b. seat a < seat b) (filter (\<lambda>p. id' p \<noteq> sid) (players room))"
      by (rule sorted_wrt_filter)
    with assms(4) show ?thesis by (simp add: list_all_iff)
  qed
  ultimately show ?thesis using one by (simp add: l(1))
qed

theorem host_leaves_first_remaining_promoted_witness:
  "reachable two_players \<and>
   map_option room_view (map_of (rooms two_players) ''R'') =
     Some (''h'', Waiting, [(''h'', True, 0), (''B'', False, 1)]) \<and>
   map player_view (filter (\<lambda>p. id' p \<noteq> ''h'') (players (the (map_of (rooms two_players) ''R'')))) =
     [(''B'', False, 1)] \<and>
   sorted_wrt (<) (map seat (players (the (map_of (rooms two_players) ''R'')))) \<and>
   map_option room_view (map_of (leaveRoom (rooms two_players) ''R'' ''h'') ''R'') =
     Some (''B'', Waiting, [(''B'', True, 1)]) \<and>
   length (filter isHost (players (leaveRoom_room (the (map_of (rooms two_players) ''R'')) ''h''))) = 1"
proof -
  have r: "reachable two_players"
    unfolding two_players_def by (rule reachable_run) (rule reachable.start)
  have m: "map_of (rooms two_players) ''R'' = Some (the (map_of (rooms two_players) ''R''))"
    by (simp add: two_players_def handler_defs js_or_def)
  have h: "hostId (the (map_of (rooms two_players) ''R'')) = ''h''"
    by (simp add: two_players_def handler_defs js_or_def)
  have f: "filter (\<lambda>p. id' p \<noteq> ''h'') (players (the (map_of (rooms two_players) ''R''))) =
      [\<lparr> id' = ''B'', name = JStr ''Bob'', isHost = False, seat = 1 \<rparr>]"
    by (simp add: two_players_def handler_defs js_or_def)
  have s: "sorted_wrt (<) (map seat (players (the (map_of (rooms two_players) ''R''))))"
    by (simp add: two_players_def handler_defs js_or_def)
  have v: "map_option room_view (map_of (rooms two_players) ''R'') =
     Some (''h'', Waiting, [(''h'', True, 0), (''B'', False, 1)])"
    by (simp add: two_players_def handler_defs js_or_def)
  have w: "map_option room_view (map_of (leaveRoom (rooms two_players) ''R'' ''h'') ''R'') =
     Some (''B'', Waiting, [(''B'', True, 1)])"
    by (simp add: two_players_def handler_defs js_or_def)
  from host_leaves_first_remaining_promoted [OF r m h f] r v f s w show ?thesis
    by (simp add: player_view_def)
qed

text \<open>
  Seats need not increase along the sequence: a player who joins after two others
  have left gets the seat 2 behind a player who holds seat 3. When the host then
  leaves, the player with seat 3 is promoted although seat 2 is in the room.
\<close>

theorem promoted_host_not_smallest_seat:
  "reachable rejoined \<and>
   map_option room_view (map_of (rooms rejoined) ''R'') =
     Some (''h'', Waiting, [(''h'', True, 0), (''D'', False, 3), (''E'', False, 2)]) \<and>
   map_option room_view (map_of (leaveRoom (rooms rejoined) ''R'' ''h'') ''R'') =
     Some (''D'', Waiting, [(''D'', True, 3), (''E'', False, 2)])"
proof -
  have "reachable rejoined"
    unfolding rejoined_def by (rule reachable_run) (rule reachable.start)
  then show ?thesis
    by (simp add: rejoined_def handler_defs)
qed

lemma reachable_players_nonempty:
  "reachable st \<Longrightarrow> map_of (rooms st) roomId = Some room \<Longrightarrow> players room \<noteq> []"
  by (drule (1) reachable_host_first) (auto simp add: host_first_def)

lemma leaveRoom_room_not_member:
  "\<not> list_ex (\<lambda>p. id' p = sid) (players room) \<Longrightarrow> filter (\<lambda>p. id' p \<noteq> sid) (players room) = players room"
  by (auto simp add: list_ex_iff filter_id_conv)

section \<open>A room is stored while it has players\<close>

text \<open>
  Claim C5. Every room stored in a reachable registry has at least one player. A leave
  takes the room out of the registry exactly when no player remains, and keeps it
  otherwise: this holds for the function \<^verbatim>\<open>leaveRoom\<close>, for the leaveRoom message and for
  a disconnect, after which a lookup of the room finds nothing.
\<close>

theorem room_stored_iff_it_has_players:
  assumes "reachable st" and "map_of (rooms st) roomId = Some room"
  shows "players room \<noteq> [] \<and>
    (map_of (leaveRoom (rooms st) roomId sid) roomId = None \<longleftrightarrow>
       filter (\<lambda>p. id' p \<noteq> sid) (players room) = []) \<and>
    (map_of (rooms (fst (on_leaveRoom st sid roomId))) roomId = None \<longleftrightarrow>
       filter (\<lambda>p. id' p \<noteq> sid) (players room) = []) \<and>
    (map_of (rooms (fst (on_disconnect st sid))) roomId = None \<longleftrightarrow>
       filter (\<lambda>p. id' p \<noteq> sid) (players room) = [])"
proof -
  from assms have n: "players room \<noteq> []" by (rule reachable_players_nonempty)
  have l: "map_of (leaveRoom (rooms st) roomId sid) roomId = None \<longleftrightarrow>
       filter (\<lambda>p. id' p \<noteq> sid) (players room) = []"
    by (simp add: map_of_leaveRoom assms(2) players_leaveRoom_room)
  have d: "map_of (rooms (fst (on_disconnect st sid))) roomId = None \<longleftrightarrow>
       filter (\<lambda>p. id' p \<noteq> sid) (players room) = []"
  proof (cases "list_ex (\<lambda>p. id' p = sid) (players room)")
    case True
    then show ?thesis
      by (simp add: rooms_on_disconnect map_of_disconnect_all assms(2) players_leaveRoom_room)
  next
    case False
    with n show ?thesis
      by (simp add: rooms_on_disconnect map_of_disconnect_all assms(2) leaveRoom_room_not_member)
  qed
  from n l d show ?thesis by (simp add: rooms_on_leaveRoom)
qed

theorem room_stored_iff_it_has_players_witness:
  "reachable one_player \<and>
   map_option room_view (map_of (rooms one_player) ''R'') = Some (''h'', Waiting, [(''h'', True, 0)]) \<and>
   filter (\<lambda>p. id' p \<noteq> ''h'') (players (the (map_of (rooms one_player) ''R''))) = [] \<and>
   map_of (leaveRoom (rooms one_player) ''R'' ''h'') ''R'' = None \<and>
   map_of (rooms (fst (on_leaveRoom one_player ''h'' ''R''))) ''R'' = None \<and>
   map_of (rooms (fst (on_disconnect one_player ''h''))) ''R'' = None"
proof -
  have r: "reachable one_player"
    unfolding one_player_def by (rule reachable_run) (rule reachable.start)
  have m: "map_of (rooms one_player) ''R'' = Some (the (map_of (rooms one_player) ''R''))"
    by (simp add: one_player_def handler_defs)
  have v: "map_option room_view (map_of (rooms one_player) ''R'') = Some (''h'', Waiting, [(''h'', True, 0)])"
    by (simp add: one_player_def handler_defs)
  have f: "filter (\<lambda>p. id' p \<noteq> ''h'') (players (the (map_of (rooms one_player) ''R''))) = []"
    by (simp add: one_player_def handler_defs)
  from room_stored_iff_it_has_players [OF r m, of "''h''"] r v f show ?thesis by simp
qed

section \<open>Leaving does not renumber seats\<close>

lemma fields_leaveRoom_room:
  "map (\<lambda>p. (id' p, name p, seat p)) (players (leaveRoom_room room sid)) =
   map (\<lambda>p. (id' p, name p, seat p)) (filter (\<lambda>p. id' p \<noteq> sid) (players room))"
  using leaveRoom_room_cases [of room sid] by auto

lemma decimal_digit: "n < 10 \<Longrightarrow> decimal n = [''0123456789'' ! n]"
  by (simp add: decimal.simps)

lemma mset_seats_partition:
  "mset (map seat ps) =
   mset (map seat (filter (\<lambda>p. id' p \<noteq> sid) ps)) + mset (map seat (filter (\<lambda>p. id' p = sid) ps))"
  by (induction ps) auto

lemma mset_seats_filter:
  "mset (map seat (filter (\<lambda>p. id' p \<noteq> sid) ps)) =
   mset (map seat ps) - mset (map seat (filter (\<lambda>p. id' p = sid) ps))"
  by (metis mset_seats_partition add_diff_cancel_right')

text \<open>
  Claim C9. A leave (the leaveRoom message as well as a disconnect) keeps the remaining
  players in order with their id, name and seat as they were. The seats that remain
  are, as a multiset, the seats before without those of the entries of the leaving
  socket; without the one seat \<open>seat d\<close> when the socket has the single entry \<open>d\<close>.
  Nothing closes the gap: the witness ends with the seats 0 and 2.
\<close>

theorem leave_keeps_the_remaining_players:
  assumes "map_of (rooms st) roomId = Some room"
  shows "map (\<lambda>p. (id' p, name p, seat p)) (players (leaveRoom_room room sid)) =
           map (\<lambda>p. (id' p, name p, seat p)) (filter (\<lambda>p. id' p \<noteq> sid) (players room)) \<and>
         mset (map seat (players (leaveRoom_room room sid))) =
           mset (map seat (players room)) - mset (map seat (filter (\<lambda>p. id' p = sid) (players room))) \<and>
         (filter (\<lambda>p. id' p = sid) (players room) = [d] \<longrightarrow>
            mset (map seat (players (leaveRoom_room room sid))) = mset (map seat (players room)) - {#seat d#}) \<and>
         map_of (rooms (fst (on_leaveRoom st sid roomId))) roomId =
           (if filter (\<lambda>p. id' p \<noteq> sid) (players room) = [] then None
            else Some (leaveRoom_room room sid)) \<and>
         map_of (rooms (fst (on_disconnect st sid))) roomId =
           (if list_ex (\<lambda>p. id' p = sid) (players room)
            then (if filter (\<lambda>p. id' p \<noteq> sid) (players room) = [] then None
                  else Some (leaveRoom_room room sid))
            else Some room)"
proof -
  have f: "map (\<lambda>p. (id' p, name p, seat p)) (players (leaveRoom_room room sid)) =
           map (\<lambda>p. (id' p, name p, seat p)) (filter (\<lambda>p. id' p \<noteq> sid) (players room))"
    by (rule fields_leaveRoom_room)
  then have "map (\<lambda>t. snd (snd t)) (map (\<lambda>p. (id' p, name p, seat p)) (players (leaveRoom_room room sid))) =
      map (\<lambda>t. snd (snd t)) (map (\<lambda>p. (id' p, name p, seat p)) (filter (\<lambda>p. id' p \<noteq> sid) (players room)))"
    by simp
  then have "map seat (players (leaveRoom_room room sid)) = map seat (filter (\<lambda>p. id' p \<noteq> sid) (players room))"
    by (simp add: comp_def)
  then have s: "mset (map seat (players (leaveRoom_room room sid))) =
           mset (map seat (players room)) - mset (map seat (filter (\<lambda>p. id' p = sid) (players room)))"
    by (simp only: mset_seats_filter)
  have l: "map_of (rooms (fst (on_leaveRoom st sid roomId))) roomId =
           (if filter (\<lambda>p. id' p \<noteq> sid) (players room) = [] then None
            else Some (leaveRoom_room room sid))"
    by (simp add: rooms_on_leaveRoom map_of_leaveRoom assms players_leaveRoom_room)
  have d: "map_of (rooms (fst (on_disconnect st sid))) roomId =
           (if list_ex (\<lambda>p. id' p = sid) (players room)
            then (if filter (\<lambda>p. id' p \<noteq> sid) (players room) = [] then None
                  else Some (leaveRoom_room room sid))
            else Some room)"
    by (simp add: rooms_on_disconnect map_of_disconnect_all assms players_leaveRoom_room)
  have s1: "mset (map seat (players (leaveRoom_room room sid))) = mset (map seat (players room)) - {#seat d#}"
    if "filter (\<lambda>p. id' p = sid) (players room) = [d]"
    using s that by (simp only: list.map mset.simps)
  from f s s1 l d show ?thesis by blast
qed

theorem leave_keeps_the_remaining_players_witness:
  "map_option room_view (map_of (rooms three_players) ''R'') =
     Some (''h'', Waiting, [(''h'', True, 0), (''B'', False, 1), (''C'', False, 2)]) \<and>
   map player_view (filter (\<lambda>p. id' p = ''B'') (players (the (map_of (rooms three_players) ''R'')))) =
     [(''B'', False, 1)] \<and>
   map seat (players (leaveRoom_room (the (map_of (rooms three_players) ''R'')) ''B'')) = [0, 2] \<and>
   mset (map seat (players (leaveRoom_room (the (map_of (rooms three_players) ''R'')) ''B''))) =
     mset (map seat (players (the (map_of (rooms three_players) ''R'')))) - {#1#} \<and>
   map_option room_view (map_of (rooms (fst (on_leaveRoom three_players ''B'' ''R''))) ''R'') =
     Some (''h'', Waiting, [(''h'', True, 0), (''C'', False, 2)]) \<and>
   map_option room_view (map_of (rooms (fst (on_disconnect three_players ''B''))) ''R'') =
     Some (''h'', Waiting, [(''h'', True, 0), (''C'', False, 2)])"
proof -
  have m: "map_of (rooms three_players) ''R'' = Some (the (map_of (rooms three_players) ''R''))"
    by (simp add: three_players_def handler_defs decimal_digit)
  have v: "map_option room_view (map_of (rooms three_players) ''R'') =
     Some (''h'', Waiting, [(''h'', True, 0), (''B'', False, 1), (''C'', False, 2)])"
    by (simp add: three_players_def handler_defs decimal_digit)
  have f: "filter (\<lambda>p. id' p = ''B'') (players (the (map_of (rooms three_players) ''R''))) =
      [\<lparr> id' = ''B'', name = JStr (player_prefix @ ''2''), isHost = False, seat = 1 \<rparr>]"
    by (simp add: three_players_def handler_defs decimal_digit)
  have s: "map seat (players (leaveRoom_room (the (map_of (rooms three_players) ''R'')) ''B'')) = [0, 2]"
    by (simp add: three_players_def handler_defs decimal_digit)
  have l: "map_option room_view (map_of (rooms (fst (on_leaveRoom three_players ''B'' ''R''))) ''R'') =
     Some (''h'', Waiting, [(''h'', True, 0), (''C'', False, 2)])"
    by (simp add: three_players_def handler_defs decimal_digit)
  have l': "map_option room_view (Some (leaveRoom_room (the (map_of (rooms three_players) ''R'')) ''B'')) =
     Some (''h'', Waiting, [(''h'', True, 0), (''C'', False, 2)])"
    by (simp add: three_players_def handler_defs decimal_digit)
  have e: "list_ex (\<lambda>p. id' p = ''B'') (players (the (map_of (rooms three_players) ''R'')))"
    by (simp add: three_players_def handler_defs decimal_digit)
  have ne: "filter (\<lambda>p. id' p \<noteq> ''B'') (players (the (map_of (rooms three_players) ''R''))) \<noteq> []"
    by (simp add: three_players_def handler_defs decimal_digit)
  from leave_keeps_the_remaining_players [OF m, of "''B''" "\<lparr> id' = ''B'', name = JStr (player_prefix @ ''2''), isHost = False, seat = 1 \<rparr>"]
    v f s l l' e ne
  show ?thesis
    by (simp add: player_view_def)
qed

section \<open>Joins that fail\<close>

text \<open>
  Claim C3, as the code has it. \<^verbatim>\<open>joinRoom\<close> tests in this order: an unknown id gives
  RoomNotFound; a room with four players (or more) gives RoomFull, whatever its status;
  a room with fewer than four players whose status is not waiting gives
  GameAlreadyStarted. A failing join changes neither the registry nor the rest of the
  state; the handler only answers the callback, if there is one.
\<close>

theorem joinRoom_failures:
  "(map_of (rooms st) roomId = None \<longrightarrow>
      joinRoom (rooms st) roomId sid nm = (rooms st, Inl RoomNotFound)) \<and>
   (map_of (rooms st) roomId = Some room \<and> length (players room) \<ge> 4 \<longrightarrow>
      joinRoom (rooms st) roomId sid nm = (rooms st, Inl RoomFull)) \<and>
   (map_of (rooms st) roomId = Some room \<and> length (players room) < 4 \<and> status room \<noteq> Waiting \<longrightarrow>
      joinRoom (rooms st) roomId sid nm = (rooms st, Inl GameAlreadyStarted)) \<and>
   (snd (joinRoom (rooms st) roomId sid nm) = Inl e \<longrightarrow>
      on_joinRoom st sid roomId nm callback = (st, if callback then [Ack (JoinAck (Inl e))] else []))"
proof -
  have "on_joinRoom st sid roomId nm callback = (st, if callback then [Ack (JoinAck (Inl e))] else [])"
    if "snd (joinRoom (rooms st) roomId sid nm) = Inl e"
  proof -
    from that have "joinRoom (rooms st) roomId sid nm = (rooms st, Inl e)"
      by (auto simp add: joinRoom_def Let_def split: option.splits if_splits)
    then show ?thesis by (simp add: on_joinRoom_def)
  qed
  then show ?thesis by (simp add: joinRoom_def)
qed

theorem joinRoom_failures_witness:
  "joinRoom (rooms init) ''R'' ''E'' JUndefined = (rooms init, Inl RoomNotFound) \<and>
   map_option room_view (map_of (rooms full_playing) ''R'') =
     Some (''h'', Playing, [(''h'', True, 0), (''B'', False, 1), (''C'', False, 2), (''D'', False, 3)]) \<and>
   joinRoom (rooms full_playing) ''R'' ''E'' JUndefined = (rooms full_playing, Inl RoomFull) \<and>
   map_option room_view (map_of (rooms two_playing) ''R'') =
     Some (''h'', Playing, [(''h'', True, 0), (''B'', False, 1)]) \<and>
   joinRoom (rooms two_playing) ''R'' ''E'' JUndefined = (rooms two_playing, Inl GameAlreadyStarted) \<and>
   on_joinRoom two_playing ''E'' ''R'' JUndefined True = (two_playing, [Ack (JoinAck (Inl GameAlreadyStarted))])"
proof -
  have a: "map_of (rooms init) ''R'' = None" by (simp add: init_def)
  have b: "map_of (rooms full_playing) ''R'' = Some (the (map_of (rooms full_playing) ''R''))"
    "length (players (the (map_of (rooms full_playing) ''R''))) \<ge> 4"
    by (simp_all add: full_playing_def handler_defs)
  have c: "map_of (rooms two_playing) ''R'' = Some (the (map_of (rooms two_playing) ''R''))"
    "length (players (the (map_of (rooms two_playing) ''R''))) < 4"
    "status (the (map_of (rooms two_playing) ''R'')) \<noteq> Waiting"
    by (simp_all add: two_playing_def handler_defs)
  have v: "map_option room_view (map_of (rooms full_playing) ''R'') =
     Some (''h'', Playing, [(''h'', True, 0), (''B'', False, 1), (''C'', False, 2), (''D'', False, 3)])"
    by (simp add: full_playing_def handler_defs)
  have w: "map_option room_view (map_of (rooms two_playing) ''R'') =
     Some (''h'', Playing, [(''h'', True, 0), (''B'', False, 1)])"
    by (simp add: two_playing_def handler_defs)
  from joinRoom_failures [of init "''R''" "''E''" JUndefined undefined GameAlreadyStarted True]
    joinRoom_failures [of full_playing "''R''" "''E''" JUndefined "the (map_of (rooms full_playing) ''R'')" GameAlreadyStarted True]
    joinRoom_failures [of two_playing "''R''" "''E''" JUndefined "the (map_of (rooms two_playing) ''R'')" GameAlreadyStarted True]
    a b c v w
  show ?thesis by simp
qed

text \<open>
  A room that is playing does not always answer GameAlreadyStarted: when it is also
  full, the answer is RoomFull.
\<close>

theorem full_playing_room_reports_RoomFull:
  "reachable full_playing \<and>
   map_option room_view (map_of (rooms full_playing) ''R'') =
     Some (''h'', Playing, [(''h'', True, 0), (''B'', False, 1), (''C'', False, 2), (''D'', False, 3)]) \<and>
   snd (joinRoom (rooms full_playing) ''R'' ''E'' JUndefined) = Inl RoomFull \<and>
   snd (joinRoom (rooms full_playing) ''R'' ''E'' JUndefined) \<noteq> Inl GameAlreadyStarted"
proof -
  have "reachable full_playing"
    unfolding full_playing_def by (rule reachable_run) (rule reachable.start)
  then show ?thesis
    by (simp add: full_playing_def handler_defs)
qed

section \<open>Joins in a row\<close>

lemma joinRoom_success:
  assumes "map_of rs roomId = Some room" and "status room = Waiting" and "length (players room) < 4"
  shows "joinRoom rs roomId sid nm =
     (AList.update roomId
        (room \<lparr> players := players room @
           [\<lparr> id' = sid, name = js_or nm (JStr (player_prefix @ decimal (length (players room) + 1))),
              isHost = False, seat = length (players room) \<rparr>] \<rparr>) rs,
      Inr (room \<lparr> players := players room @
           [\<lparr> id' = sid, name = js_or nm (JStr (player_prefix @ decimal (length (players room) + 1))),
              isHost = False, seat = length (players room) \<rparr>] \<rparr>,
           length (players room),
           \<lparr> id' = sid, name = js_or nm (JStr (player_prefix @ decimal (length (players room) + 1))),
              isHost = False, seat = length (players room) \<rparr>))"
  using assms by (simp add: joinRoom_def Let_def)

lemma joinRoom_seq_seats_aux:
  "map_of rs roomId = Some room \<Longrightarrow> status room = Waiting \<Longrightarrow>
   length (players room) + length js \<le> 4 \<Longrightarrow>
   map assigned_seat (snd (joinRoom_seq rs roomId js)) =
     map Some [length (players room) ..< length (players room) + length js] \<and>
   map_option (\<lambda>r. (status r, map seat (players r))) (map_of (fst (joinRoom_seq rs roomId js)) roomId) =
     Some (Waiting, map seat (players room) @ [length (players room) ..< length (players room) + length js])"
proof (induction js arbitrary: rs room)
  case Nil
  then show ?case by simp
next
  case (Cons j js)
  obtain sid nm where j: "j = (sid, nm)" by (cases j)
  define p where "p = \<lparr> id' = sid, name = js_or nm (JStr (player_prefix @ decimal (length (players room) + 1))),
              isHost = False, seat = length (players room) \<rparr>"
  define room' where "room' = room \<lparr> players := players room @ [p] \<rparr>"
  from Cons.prems have lt: "length (players room) < 4" by simp
  have jr: "joinRoom rs roomId sid nm = (AList.update roomId room' rs, Inr (room', length (players room), p))"
    using joinRoom_success [OF Cons.prems(1,2) lt] by (simp add: room'_def p_def)
  have m: "map_of (AList.update roomId room' rs) roomId = Some room'"
    by (simp add: update_conv')
  have s: "status room' = Waiting" using Cons.prems(2) by (simp add: room'_def)
  have l: "length (players room') + length js \<le> 4" using Cons.prems(3) by (simp add: room'_def)
  have len: "length (players room') = Suc (length (players room))" by (simp add: room'_def)
  define U where "U = [Suc (length (players room)) ..< Suc (length (players room)) + length js]"
  have up: "[length (players room) ..< length (players room) + length (j # js)] = length (players room) # U"
    unfolding U_def
    using upt_conv_Cons [of "length (players room)" "length (players room) + Suc (length js)"]
    by simp
  have seats: "map seat (players room') = map seat (players room) @ [length (players room)]"
    by (simp add: room'_def p_def)
  obtain rs2 results where seq: "joinRoom_seq (AList.update roomId room' rs) roomId js = (rs2, results)"
    by (cases "joinRoom_seq (AList.update roomId room' rs) roomId js") auto
  from Cons.IH [OF m s l]
  have ih: "map assigned_seat results = map Some U"
    "map_option (\<lambda>r. (status r, map seat (players r))) (map_of rs2 roomId) =
       Some (Waiting, map seat (players room') @ U)"
    unfolding len U_def seq by simp_all
  have whole: "joinRoom_seq rs roomId (j # js) = (rs2, Inr (room', length (players room), p) # results)"
    by (simp add: j jr seq)
  have as: "assigned_seat (Inr (room', length (players room), p)) = Some (length (players room))"
    by (simp add: assigned_seat_def)
  show ?case
    unfolding up whole
    using ih by (simp add: seats as)
qed

text \<open>
  Claim C4. On a waiting room, a sequence of joins that never finds the room with four
  players succeeds call by call; the seats given are the player counts before each
  insertion, that is the numbers from the first count upwards, strictly increasing,
  and the room ends with one more player per join.
\<close>

theorem joins_assign_increasing_seats:
  assumes "map_of rs roomId = Some room" and "status room = Waiting"
    and "length (players room) + length js \<le> 4"
  shows "map assigned_seat (snd (joinRoom_seq rs roomId js)) =
           map Some [length (players room) ..< length (players room) + length js] \<and>
         sorted_wrt (<) (List.map_filter assigned_seat (snd (joinRoom_seq rs roomId js))) \<and>
         length (snd (joinRoom_seq rs roomId js)) = length js \<and>
         map_option (length \<circ> players) (map_of (fst (joinRoom_seq rs roomId js)) roomId) =
           Some (length (players room) + length js)"
proof -
  from joinRoom_seq_seats_aux [OF assms]
  obtain z where z: "map_of (fst (joinRoom_seq rs roomId js)) roomId = Some z"
    "map seat (players z) =
       map seat (players room) @ [length (players room) ..< length (players room) + length js]"
    by auto
  have "length (players z) = length (players room) + length js"
    using arg_cong [OF z(2), of length] by simp
  with z(1) have grown: "map_option (length \<circ> players) (map_of (fst (joinRoom_seq rs roomId js)) roomId) =
           Some (length (players room) + length js)"
    by simp
  from joinRoom_seq_seats_aux [OF assms]
  have a: "map assigned_seat (snd (joinRoom_seq rs roomId js)) =
           map Some [length (players room) ..< length (players room) + length js]"
    by simp
  have mf: "List.map_filter f xs = ys" if "map f xs = map Some ys" for f :: "join_result \<Rightarrow> nat option" and xs ys
    using that by (induction xs arbitrary: ys) (auto simp add: List.map_filter_simps)
  from a have "List.map_filter assigned_seat (snd (joinRoom_seq rs roomId js)) =
      [length (players room) ..< length (players room) + length js]"
    by (rule mf)
  then have "sorted_wrt (<) (List.map_filter assigned_seat (snd (joinRoom_seq rs roomId js)))"
    by simp
  moreover from a have "length (map assigned_seat (snd (joinRoom_seq rs roomId js))) =
      length (map Some [length (players room) ..< length (players room) + length js])"
    by (simp only:)
  then have "length (snd (joinRoom_seq rs roomId js)) = length js"
    by simp
  ultimately show ?thesis using a grown by simp
qed

theorem joins_assign_increasing_seats_witness:
  "map_option room_view (map_of (rooms one_player) ''R'') = Some (''h'', Waiting, [(''h'', True, 0)]) \<and>
   map assigned_seat
     (snd (joinRoom_seq (rooms one_player) ''R'' [(''B'', JStr ''Bob''), (''C'', JUndefined), (''D'', JNull)])) =
     [Some 1, Some 2, Some 3]"
proof -
  have m: "map_of (rooms one_player) ''R'' = Some (the (map_of (rooms one_player) ''R''))"
    by (simp add: one_player_def handler_defs)
  have v: "map_option room_view (map_of (rooms one_player) ''R'') = Some (''h'', Waiting, [(''h'', True, 0)])"
    by (simp add: one_player_def handler_defs)
  have s: "status (the (map_of (rooms one_player) ''R'')) = Waiting"
    by (simp add: one_player_def handler_defs)
  have l: "length (players (the (map_of (rooms one_player) ''R''))) = 1"
    by (simp add: one_player_def handler_defs)
  then have l': "length (players (the (map_of (rooms one_player) ''R''))) +
      length [(''B'', JStr ''Bob''), (''C'', JUndefined), (''D'', JNull)] \<le> 4"
    by simp
  from joins_assign_increasing_seats [OF m s l'] l v show ?thesis
    by (simp add: upt_conv_Cons)
qed

section \<open>The settings of a new room\<close>

lemma merge_settings_supplied: "s k = Some v \<Longrightarrow> merge_settings s k = Some v"
  by (simp add: merge_settings_def map_add_def)

lemma merge_settings_default:
  assumes "s k = None"
  shows "merge_settings s k = default_points k"
proof -
  consider "k = ''basePoints''" | "k = ''perFanPoints''" | "k = ''initialPoints''"
    | "k \<noteq> ''basePoints''" "k \<noteq> ''perFanPoints''" "k \<noteq> ''initialPoints''"
    by blast
  then show ?thesis
  proof cases
    case 1
    with assms have "s ''basePoints'' = None" by simp
    with 1 show ?thesis
      by (simp add: merge_settings_def map_add_def default_points_def get_prop_def js_or_def)
  next
    case 2
    with assms have "s ''perFanPoints'' = None" by simp
    with 2 show ?thesis
      by (simp add: merge_settings_def map_add_def default_points_def get_prop_def js_or_def)
  next
    case 3
    with assms have "s ''initialPoints'' = None" by simp
    with 3 show ?thesis
      by (simp add: merge_settings_def map_add_def default_points_def get_prop_def js_or_def)
  next
    case 4
    with assms show ?thesis
      by (simp add: merge_settings_def map_add_def default_points_def)
  qed
qed

text \<open>
  Claim C8. \<^verbatim>\<open>createRoom\<close> stores a room under the identifier it drew. In its settings
  every key the caller supplied has the caller's value, the three point settings
  included (also when that value is falsy: the spread comes last); a point setting the
  caller did not supply has its default 2000, 1000 or 100000; and no other key appears.
\<close>

theorem createRoom_settings_merge:
  "\<exists>room. map_of (fst (createRoom rs roomId sid settings_arg)) roomId = Some room \<and>
     (\<forall>k v. supplied settings_arg k = Some v \<longrightarrow> settings room k = Some v) \<and>
     (supplied settings_arg ''basePoints'' = None \<longrightarrow> settings room ''basePoints'' = Some (JNum 2000)) \<and>
     (supplied settings_arg ''perFanPoints'' = None \<longrightarrow> settings room ''perFanPoints'' = Some (JNum 1000)) \<and>
     (supplied settings_arg ''initialPoints'' = None \<longrightarrow> settings room ''initialPoints'' = Some (JNum 100000)) \<and>
     (\<forall>k. supplied settings_arg k = None \<longrightarrow> settings room k = default_points k)"
proof -
  have d: "default_points ''basePoints'' = Some (JNum 2000)"
    "default_points ''perFanPoints'' = Some (JNum 1000)"
    "default_points ''initialPoints'' = Some (JNum 100000)"
    by (simp_all add: default_points_def)
  show ?thesis
    by (simp add: map_of_createRoom supplied_def merge_settings_supplied merge_settings_default d)
qed

theorem createRoom_settings_merge_witness:
  "supplied (Some [''basePoints'' \<mapsto> JNum 0, ''flowers'' \<mapsto> JBool True]) ''basePoints'' = Some (JNum 0) \<and>
   supplied (Some [''basePoints'' \<mapsto> JNum 0, ''flowers'' \<mapsto> JBool True]) ''flowers'' = Some (JBool True) \<and>
   supplied (Some [''basePoints'' \<mapsto> JNum 0, ''flowers'' \<mapsto> JBool True]) ''perFanPoints'' = None \<and>
   supplied (Some [''basePoints'' \<mapsto> JNum 0, ''flowers'' \<mapsto> JBool True]) ''initialPoints'' = None \<and>
   supplied (Some [''basePoints'' \<mapsto> JNum 0, ''flowers'' \<mapsto> JBool True]) ''playerName'' = None \<and>
   map_option (\<lambda>room. map (settings room) [''basePoints'', ''perFanPoints'', ''initialPoints'', ''flowers'', ''playerName''])
     (map_of (fst (createRoom [] ''R'' ''h'' (Some [''basePoints'' \<mapsto> JNum 0, ''flowers'' \<mapsto> JBool True]))) ''R'') =
     Some [Some (JNum 0), Some (JNum 1000), Some (JNum 100000), Some (JBool True), None] \<and>
   supplied None ''basePoints'' = None \<and>
   map_option (\<lambda>room. map (settings room) [''basePoints'', ''perFanPoints'', ''initialPoints''])
     (map_of (fst (createRoom [] ''R'' ''h'' None)) ''R'') =
     Some [Some (JNum 2000), Some (JNum 1000), Some (JNum 100000)]"
proof -
  have s: "supplied (Some [''basePoints'' \<mapsto> JNum 0, ''flowers'' \<mapsto> JBool True]) ''basePoints'' = Some (JNum 0)"
    "supplied (Some [''basePoints'' \<mapsto> JNum 0, ''flowers'' \<mapsto> JBool True]) ''flowers'' = Some (JBool True)"
    "supplied (Some [''basePoints'' \<mapsto> JNum 0, ''flowers'' \<mapsto> JBool True]) ''perFanPoints'' = None"
    "supplied (Some [''basePoints'' \<mapsto> JNum 0, ''flowers'' \<mapsto> JBool True]) ''initialPoints'' = None"
    "supplied (Some [''basePoints'' \<mapsto> JNum 0, ''flowers'' \<mapsto> JBool True]) ''playerName'' = None"
    "supplied None ''basePoints'' = None" "supplied None ''perFanPoints'' = None"
    "supplied None ''initialPoints'' = None"
    by (simp_all add: supplied_def)
  have d: "default_points ''playerName'' = None" by (simp add: default_points_def)
  from createRoom_settings_merge [of "[]" "''R''" "''h''" "Some [''basePoints'' \<mapsto> JNum 0, ''flowers'' \<mapsto> JBool True]"]
  obtain room1 where m1: "map_of (fst (createRoom [] ''R'' ''h'' (Some [''basePoints'' \<mapsto> JNum 0, ''flowers'' \<mapsto> JBool True]))) ''R'' = Some room1"
    and a1: "\<And>k v. supplied (Some [''basePoints'' \<mapsto> JNum 0, ''flowers'' \<mapsto> JBool True]) k = Some v \<Longrightarrow> settings room1 k = Some v"
    and b1: "\<And>k. supplied (Some [''basePoints'' \<mapsto> JNum 0, ''flowers'' \<mapsto> JBool True]) k = None \<Longrightarrow> settings room1 k = default_points k"
    by blast
  have r1: "settings room1 ''basePoints'' = Some (JNum 0)" "settings room1 ''flowers'' = Some (JBool True)"
    "settings room1 ''perFanPoints'' = Some (JNum 1000)" "settings room1 ''initialPoints'' = Some (JNum 100000)"
    "settings room1 ''playerName'' = None"
    using a1 [OF s(1)] a1 [OF s(2)] b1 [OF s(3)] b1 [OF s(4)] b1 [OF s(5)]
    by (simp_all add: default_points_def)
  from createRoom_settings_merge [of "[]" "''R''" "''h''" None]
  obtain room2 where m2: "map_of (fst (createRoom [] ''R'' ''h'' None)) ''R'' = Some room2"
    and r2: "settings room2 ''basePoints'' = Some (JNum 2000)"
    "settings room2 ''perFanPoints'' = Some (JNum 1000)" "settings room2 ''initialPoints'' = Some (JNum 100000)"
    using s(6,7,8) by blast
  from m1 r1 m2 r2 s show ?thesis by simp
qed

section \<open>Game state updates\<close>

lemma find_member:
  "sid \<in> id' ` set ps \<Longrightarrow> \<exists>p. find (\<lambda>p. id' p = sid) ps = Some p \<and> id' p = sid \<and> p \<in> set ps"
  by (induction ps) auto

lemma find_not_member:
  "sid \<notin> id' ` set ps \<Longrightarrow> find (\<lambda>p. id' p = sid) ps = None"
  by (induction ps) auto

text \<open>
  Claim C7. A gameStateUpdate for a room that is not stored, or from a socket that has
  no entry among the room's players, changes nothing and emits nothing. From a member
  it replaces the stored \<open>gameState\<close> by the submitted value, whatever was stored
  before, leaves every other room and the groups alone, and relays the value to the
  room without the sender together with the seat and the host flag of the sender's
  entry (the first one with its id).
\<close>

theorem gameStateUpdate_members_only:
  "(map_of (rooms st) roomId = None \<longrightarrow> on_gameStateUpdate st sid roomId gs = (st, [])) \<and>
   (map_of (rooms st) roomId = Some room \<and> sid \<notin> id' ` set (players room) \<longrightarrow>
      on_gameStateUpdate st sid roomId gs = (st, [])) \<and>
   (map_of (rooms st) roomId = Some room \<and> sid \<in> id' ` set (players room) \<longrightarrow>
      (\<exists>player. find (\<lambda>p. id' p = sid) (players room) = Some player \<and>
         id' player = sid \<and> player \<in> set (players room) \<and>
         snd (on_gameStateUpdate st sid roomId gs) =
           [Emit (ToRoomExcept roomId sid) (GameStateSync gs (seat player) (isHost player))]) \<and>
      map_of (rooms (fst (on_gameStateUpdate st sid roomId gs))) roomId = Some (room \<lparr> gameState := gs \<rparr>) \<and>
      (\<forall>r. r \<noteq> roomId \<longrightarrow> map_of (rooms (fst (on_gameStateUpdate st sid roomId gs))) r = map_of (rooms st) r) \<and>
      groups (fst (on_gameStateUpdate st sid roomId gs)) = groups st)"
proof -
  have a: "on_gameStateUpdate st sid roomId gs = (st, [])"
    if "map_of (rooms st) roomId = Some room" "sid \<notin> id' ` set (players room)"
    using that find_not_member [OF that(2)] by (simp add: on_gameStateUpdate_def)
  have b: "(\<exists>player. find (\<lambda>p. id' p = sid) (players room) = Some player \<and>
         id' player = sid \<and> player \<in> set (players room) \<and>
         snd (on_gameStateUpdate st sid roomId gs) =
           [Emit (ToRoomExcept roomId sid) (GameStateSync gs (seat player) (isHost player))]) \<and>
      map_of (rooms (fst (on_gameStateUpdate st sid roomId gs))) roomId = Some (room \<lparr> gameState := gs \<rparr>) \<and>
      (\<forall>r. r \<noteq> roomId \<longrightarrow> map_of (rooms (fst (on_gameStateUpdate st sid roomId gs))) r = map_of (rooms st) r) \<and>
      groups (fst (on_gameStateUpdate st sid roomId gs)) = groups st"
    if "map_of (rooms st) roomId = Some room" "sid \<in> id' ` set (players room)"
  proof -
    from find_member [OF that(2)] obtain player where
      p: "find (\<lambda>p. id' p = sid) (players room) = Some player" "id' player = sid" "player \<in> set (players room)"
      by blast
    with that(1) show ?thesis
      by (simp add: on_gameStateUpdate_def update_conv')
  qed
  have c: "on_gameStateUpdate st sid roomId gs = (st, [])" if "map_of (rooms st) roomId = None"
    using that by (simp add: on_gameStateUpdate_def)
  from a b c show ?thesis by blast
qed

theorem gameStateUpdate_members_only_witness:
  "map_option room_view (map_of (rooms two_players) ''R'') =
     Some (''h'', Waiting, [(''h'', True, 0), (''B'', False, 1)]) \<and>
   on_gameStateUpdate two_players ''X'' ''R'' (JNum 7) = (two_players, []) \<and>
   on_gameStateUpdate two_players ''B'' ''Q'' (JNum 7) = (two_players, []) \<and>
   snd (on_gameStateUpdate two_players ''B'' ''R'' (JNum 7)) =
     [Emit (ToRoomExcept ''R'' ''B'') (GameStateSync (JNum 7) 1 False)] \<and>
   map_option gameState (map_of (rooms (fst (on_gameStateUpdate two_players ''B'' ''R'' (JNum 7)))) ''R'') =
     Some (JNum 7)"
proof -
  have m: "map_of (rooms two_players) ''R'' = Some (the (map_of (rooms two_players) ''R''))"
    by (simp add: two_players_def handler_defs)
  have q: "map_of (rooms two_players) ''Q'' = None"
    by (simp add: two_players_def handler_defs)
  have v: "map_option room_view (map_of (rooms two_players) ''R'') =
     Some (''h'', Waiting, [(''h'', True, 0), (''B'', False, 1)])"
    by (simp add: two_players_def handler_defs)
  have x: "''X'' \<notin> id' ` set (players (the (map_of (rooms two_players) ''R'')))"
    by (simp add: two_players_def handler_defs)
  have b: "''B'' \<in> id' ` set (players (the (map_of (rooms two_players) ''R'')))"
    by (simp add: two_players_def handler_defs)
  have f: "find (\<lambda>p. id' p = ''B'') (players (the (map_of (rooms two_players) ''R''))) =
      Some \<lparr> id' = ''B'', name = JStr ''Bob'', isHost = False, seat = 1 \<rparr>"
    by (simp add: two_players_def handler_defs)
  from gameStateUpdate_members_only [of two_players "''R''" "''X''" "JNum 7" "the (map_of (rooms two_players) ''R'')"]
    m x
  have 1: "on_gameStateUpdate two_players ''X'' ''R'' (JNum 7) = (two_players, [])" by blast
  from gameStateUpdate_members_only [of two_players "''Q''" "''B''" "JNum 7" undefined] q
  have 2: "on_gameStateUpdate two_players ''B'' ''Q'' (JNum 7) = (two_players, [])" by blast
  from gameStateUpdate_members_only [of two_players "''R''" "''B''" "JNum 7" "the (map_of (rooms two_players) ''R'')"]
    m b
  have 3: "\<exists>player. find (\<lambda>p. id' p = ''B'') (players (the (map_of (rooms two_players) ''R''))) = Some player \<and>
         snd (on_gameStateUpdate two_players ''B'' ''R'' (JNum 7)) =
           [Emit (ToRoomExcept ''R'' ''B'') (GameStateSync (JNum 7) (seat player) (isHost player))]"
    and 4: "map_of (rooms (fst (on_gameStateUpdate two_players ''B'' ''R'' (JNum 7)))) ''R'' =
      Some ((the (map_of (rooms two_players) ''R'')) \<lparr> gameState := JNum 7 \<rparr>)"
    by blast+
  from 3 f have 5: "snd (on_gameStateUpdate two_players ''B'' ''R'' (JNum 7)) =
     [Emit (ToRoomExcept ''R'' ''B'') (GameStateSync (JNum 7) 1 False)]"
    by auto
  from 1 2 4 5 v show ?thesis by simp
qed

section \<open>Starting the game\<close>

lemma host_first_find:
  assumes "host_first room"
  shows "(case find (\<lambda>p. id' p = sid) (players room) of None \<Rightarrow> False | Some h \<Rightarrow> isHost h)
         \<longleftrightarrow> hostId room = sid"
proof -
  from assms obtain p ps where ps: "players room = p # ps" "isHost p" "hostId room = id' p"
      "list_all (\<lambda>q. \<not> isHost q) ps"
    by (auto simp add: host_first_def split: list.splits)
  show ?thesis
  proof (cases "id' p = sid")
    case True
    with ps show ?thesis by simp
  next
    case False
    have "\<not> (case find (\<lambda>p. id' p = sid) ps of None \<Rightarrow> False | Some p \<Rightarrow> isHost p)"
      using find_tail_not_host [OF ps(4)] by (auto split: option.splits)
    with False ps show ?thesis by simp
  qed
qed

lemma on_startGame_too_few:
  "map_of (rooms st) roomId = None \<or>
   (map_of (rooms st) roomId = Some room \<and> length (players room) < 2) \<Longrightarrow>
   on_startGame st sid connected roomId =
     (st, if connected then [Emit (ToSocket sid) (ErrorMessage InsufficientPlayers)] else [])"
  by (auto simp add: on_startGame_def)

lemma on_startGame_not_host:
  assumes "host_first room" and "map_of (rooms st) roomId = Some room"
    and "2 \<le> length (players room)" and "hostId room \<noteq> sid"
  shows "on_startGame st sid connected roomId =
     (st, if connected then [Emit (ToSocket sid) (ErrorMessage NotHost)] else [])"
  using assms(2-4) host_first_find [OF assms(1), of sid]
  by (auto simp add: on_startGame_def split: option.splits)

lemma on_startGame_host:
  assumes "host_first room" and "map_of (rooms st) roomId = Some room"
    and "2 \<le> length (players room)" and "hostId room = sid"
  shows "on_startGame st sid connected roomId =
     (st \<lparr> rooms := AList.update roomId (room \<lparr> status := Playing, gameReady := False \<rparr>) (rooms st) \<rparr>,
      [Emit (ToRoom roomId) (GameStarted (players room) (settings room) Playing (hostId room))])"
  using assms(2-4) host_first_find [OF assms(1), of sid]
  by (auto simp add: on_startGame_def Let_def split: option.splits)

text \<open>
  Claim C6, as the code has it. In a reachable state a startGame request for a room
  that is not stored or has fewer than two players fails with InsufficientPlayers,
  whoever sends it; for a room with two players or more it fails with NotHost when the
  sender is not the room's host. The error goes to the sender if its socket is still
  connected, otherwise nothing is sent; a failing request leaves the state as it was.
  From the host of a room with two players or more the request sets the status to
  playing and \<open>gameReady\<close> to false, leaves the other rooms alone and emits gameStarted
  to the room's group, which holds every player of the room.
\<close>

theorem startGame_outcomes:
  assumes "reachable st"
  shows
   "(map_of (rooms st) roomId = None \<or>
     (map_of (rooms st) roomId = Some room \<and> length (players room) < 2) \<longrightarrow>
       on_startGame st sid connected roomId =
         (st, if connected then [Emit (ToSocket sid) (ErrorMessage InsufficientPlayers)] else [])) \<and>
    (map_of (rooms st) roomId = Some room \<and> 2 \<le> length (players room) \<and> hostId room \<noteq> sid \<longrightarrow>
       on_startGame st sid connected roomId =
         (st, if connected then [Emit (ToSocket sid) (ErrorMessage NotHost)] else [])) \<and>
    (map_of (rooms st) roomId = Some room \<and> 2 \<le> length (players room) \<and> hostId room = sid \<longrightarrow>
       snd (on_startGame st sid connected roomId) =
         [Emit (ToRoom roomId) (GameStarted (players room) (settings room) Playing (hostId room))] \<and>
       map_of (rooms (fst (on_startGame st sid connected roomId))) roomId =
         Some (room \<lparr> status := Playing, gameReady := False \<rparr>) \<and>
       (\<forall>r. r \<noteq> roomId \<longrightarrow>
          map_of (rooms (fst (on_startGame st sid connected roomId))) r = map_of (rooms st) r) \<and>
       id' ` set (players room) \<subseteq>
         recipients (groups (fst (on_startGame st sid connected roomId))) (ToRoom roomId))"
proof -
  have g: "id' ` set (players room) \<subseteq> groups st roomId" if "map_of (rooms st) roomId = Some room"
    using reachable_state_inv [OF assms] that by (auto simp add: state_inv_def groups_inv_def)
  have h: "host_first room" if "map_of (rooms st) roomId = Some room"
    using assms that by (rule reachable_host_first)
  have 1: "on_startGame st sid connected roomId =
         (st, if connected then [Emit (ToSocket sid) (ErrorMessage InsufficientPlayers)] else [])"
    if "map_of (rooms st) roomId = None \<or>
     (map_of (rooms st) roomId = Some room \<and> length (players room) < 2)"
    using that by (rule on_startGame_too_few)
  have 2: "on_startGame st sid connected roomId =
         (st, if connected then [Emit (ToSocket sid) (ErrorMessage NotHost)] else [])"
    if "map_of (rooms st) roomId = Some room" "2 \<le> length (players room)" "hostId room \<noteq> sid"
    using h [OF that(1)] that by (rule on_startGame_not_host)
  have 3: "snd (on_startGame st sid connected roomId) =
         [Emit (ToRoom roomId) (GameStarted (players room) (settings room) Playing (hostId room))] \<and>
       map_of (rooms (fst (on_startGame st sid connected roomId))) roomId =
         Some (room \<lparr> status := Playing, gameReady := False \<rparr>) \<and>
       (\<forall>r. r \<noteq> roomId \<longrightarrow>
          map_of (rooms (fst (on_startGame st sid connected roomId))) r = map_of (rooms st) r) \<and>
       id' ` set (players room) \<subseteq>
         recipients (groups (fst (on_startGame st sid connected roomId))) (ToRoom roomId)"
    if "map_of (rooms st) roomId = Some room" "2 \<le> length (players room)" "hostId room = sid"
    using g [OF that(1)]
    by (simp add: on_startGame_host [OF h [OF that(1)] that] update_conv')
  from 1 2 3 show ?thesis by blast
qed

theorem startGame_outcomes_witness:
  "reachable one_player \<and> reachable two_players \<and>
   map_option room_view (map_of (rooms one_player) ''R'') = Some (''h'', Waiting, [(''h'', True, 0)]) \<and>
   on_startGame one_player ''h'' True ''R'' =
     (one_player, [Emit (ToSocket ''h'') (ErrorMessage InsufficientPlayers)]) \<and>
   map_option room_view (map_of (rooms two_players) ''R'') =
     Some (''h'', Waiting, [(''h'', True, 0), (''B'', False, 1)]) \<and>
   on_startGame two_players ''B'' True ''R'' = (two_players, [Emit (ToSocket ''B'') (ErrorMessage NotHost)]) \<and>
   on_startGame two_players ''B'' False ''R'' = (two_players, []) \<and>
   map_option room_view (map_of (rooms (fst (on_startGame two_players ''h'' True ''R''))) ''R'') =
     Some (''h'', Playing, [(''h'', True, 0), (''B'', False, 1)]) \<and>
   {''h'', ''B''} \<subseteq> recipients (groups (fst (on_startGame two_players ''h'' True ''R''))) (ToRoom ''R'')"
proof -
  have r1: "reachable one_player"
    unfolding one_player_def by (rule reachable_run) (rule reachable.start)
  have r2: "reachable two_players"
    unfolding two_players_def by (rule reachable_run) (rule reachable.start)
  have m1: "map_of (rooms one_player) ''R'' = Some (the (map_of (rooms one_player) ''R''))"
    "length (players (the (map_of (rooms one_player) ''R''))) < 2"
    by (simp_all add: one_player_def handler_defs)
  have v1: "map_option room_view (map_of (rooms one_player) ''R'') = Some (''h'', Waiting, [(''h'', True, 0)])"
    by (simp add: one_player_def handler_defs)
  have m2: "map_of (rooms two_players) ''R'' = Some (the (map_of (rooms two_players) ''R''))"
    "2 \<le> length (players (the (map_of (rooms two_players) ''R'')))"
    "hostId (the (map_of (rooms two_players) ''R'')) \<noteq> ''B''"
    "hostId (the (map_of (rooms two_players) ''R'')) = ''h''"
    by (simp_all add: two_players_def handler_defs)
  have v2: "map_option room_view (map_of (rooms two_players) ''R'') =
     Some (''h'', Waiting, [(''h'', True, 0), (''B'', False, 1)])"
    by (simp add: two_players_def handler_defs)
  have ids: "id' ` set (players (the (map_of (rooms two_players) ''R''))) = {''h'', ''B''}"
    by (simp add: two_players_def handler_defs)
  have v3: "map_option room_view (Some ((the (map_of (rooms two_players) ''R'')) \<lparr> status := Playing, gameReady := False \<rparr>)) =
     Some (''h'', Playing, [(''h'', True, 0), (''B'', False, 1)])"
    by (simp add: two_players_def handler_defs)
  from startGame_outcomes [OF r1, of "''R''" "the (map_of (rooms one_player) ''R'')" "''h''" True] m1
  have 1: "on_startGame one_player ''h'' True ''R'' =
     (one_player, [Emit (ToSocket ''h'') (ErrorMessage InsufficientPlayers)])"
    by simp
  from startGame_outcomes [OF r2, of "''R''" "the (map_of (rooms two_players) ''R'')" "''B''" True] m2
  have 2: "on_startGame two_players ''B'' True ''R'' = (two_players, [Emit (ToSocket ''B'') (ErrorMessage NotHost)])"
    by simp
  from startGame_outcomes [OF r2, of "''R''" "the (map_of (rooms two_players) ''R'')" "''B''" False] m2
  have 3: "on_startGame two_players ''B'' False ''R'' = (two_players, [])"
    by simp
  from startGame_outcomes [OF r2, of "''R''" "the (map_of (rooms two_players) ''R'')" "''h''" True] m2
  have 4: "map_of (rooms (fst (on_startGame two_players ''h'' True ''R''))) ''R'' =
         Some ((the (map_of (rooms two_players) ''R'')) \<lparr> status := Playing, gameReady := False \<rparr>)"
    and 5: "id' ` set (players (the (map_of (rooms two_players) ''R''))) \<subseteq>
         recipients (groups (fst (on_startGame two_players ''h'' True ''R''))) (ToRoom ''R'')"
    by simp_all
  from 4 v3 have 6: "map_option room_view (map_of (rooms (fst (on_startGame two_players ''h'' True ''R''))) ''R'') =
     Some (''h'', Playing, [(''h'', True, 0), (''B'', False, 1)])"
    by simp
  from 5 ids have 7: "{''h'', ''B''} \<subseteq> recipients (groups (fst (on_startGame two_players ''h'' True ''R''))) (ToRoom ''R'')"
    by simp
  from r1 r2 v1 v2 1 2 3 6 7 show ?thesis by blast
qed

text \<open>
  A requester who is not the host does not always get NotHost: on a room with a single
  player the player count is tested first.
\<close>

theorem startGame_by_outsider_on_single_player_room:
  "reachable one_player \<and>
   map_option room_view (map_of (rooms one_player) ''R'') = Some (''h'', Waiting, [(''h'', True, 0)]) \<and>
   on_startGame one_player ''X'' True ''R'' =
     (one_player, [Emit (ToSocket ''X'') (ErrorMessage InsufficientPlayers)])"
proof -
  have "reachable one_player"
    unfolding one_player_def by (rule reachable_run) (rule reachable.start)
  then show ?thesis
    by (simp add: one_player_def handler_defs)
qed

section \<open>The delayed relay of playerAction\<close>

text \<open>
  Claim C10, as the code has it. A playerAction from a member is broadcast to the room;
  when the stored \<open>gameState\<close> is truthy, one timer of 100 ms is set besides, and none
  when it is \<open>null\<close> or otherwise falsy, or when the room is not stored or the sender is
  not a member. The callback of the timer tests nothing: whatever the room object and
  the player object hold when it runs, it emits one gameStateSync to the room's group
  without the sender. In the state \<open>st'\<close> in which it runs, every player of the room
  other than the sender is a recipient, also when the sender has left; nobody is when
  the group holds no other socket.
\<close>

theorem playerAction_delayed_relay:
  assumes "reachable st'"
  shows
   "(map_of (rooms st) roomId = Some room \<and> find (\<lambda>p. id' p = sid) (players room) = Some player \<and>
     truthy (gameState room) \<longrightarrow>
       on_playerAction st sid roomId action params =
         (st, [Emit (ToRoom roomId)
                 (ActionBroadcast action params (seat player) (name player) (isHost player)),
               SetTimeout roomId sid 100])) \<and>
    (map_of (rooms st) roomId = Some room \<and> find (\<lambda>p. id' p = sid) (players room) = Some player \<and>
     (gameState room = JNull \<or> \<not> truthy (gameState room)) \<longrightarrow>
       on_playerAction st sid roomId action params =
         (st, [Emit (ToRoom roomId)
                 (ActionBroadcast action params (seat player) (name player) (isHost player))])) \<and>
    (map_of (rooms st) roomId = None \<or>
     (map_of (rooms st) roomId = Some room \<and> sid \<notin> id' ` set (players room)) \<longrightarrow>
       on_playerAction st sid roomId action params = (st, [])) \<and>
    delayed_gameStateSync roomId sid room_now player_now =
      [Emit (ToRoomExcept roomId sid)
         (GameStateSync (gameState room_now) (seat player_now) (isHost player_now))] \<and>
    (map_of (rooms st') roomId = Some room' \<longrightarrow>
       id' ` set (players room') - {sid} \<subseteq> recipients (groups st') (ToRoomExcept roomId sid)) \<and>
    (groups st' roomId \<subseteq> {sid} \<longrightarrow> recipients (groups st') (ToRoomExcept roomId sid) = {})"
proof -
  have g: "id' ` set (players room') \<subseteq> groups st' roomId" if "map_of (rooms st') roomId = Some room'"
    using reachable_state_inv [OF assms] that by (auto simp add: state_inv_def groups_inv_def)
  have 1: "on_playerAction st sid roomId action params = (st, [])"
    if "map_of (rooms st) roomId = None \<or>
     (map_of (rooms st) roomId = Some room \<and> sid \<notin> id' ` set (players room))"
    using that find_not_member [of sid "players room"]
    by (auto simp add: on_playerAction_def)
  have 2: "id' ` set (players room') - {sid} \<subseteq> recipients (groups st') (ToRoomExcept roomId sid)"
    if "map_of (rooms st') roomId = Some room'"
    using g [OF that] by auto
  from 1 2 show ?thesis
    by (auto simp add: on_playerAction_def delayed_gameStateSync_def)
qed

theorem playerAction_delayed_relay_witness:
  "reachable sender_left \<and>
   map_option room_view (map_of (rooms before_action) ''R'') =
     Some (''h'', Playing, [(''h'', True, 0), (''B'', False, 1)]) \<and>
   map_option gameState (map_of (rooms before_action) ''R'') = Some (JNum 1) \<and>
   on_playerAction before_action ''B'' ''R'' (JStr ''discard'') JNull =
     (before_action,
      [Emit (ToRoom ''R'') (ActionBroadcast (JStr ''discard'') JNull 1 (JStr ''Bob'') False),
       SetTimeout ''R'' ''B'' 100]) \<and>
   on_playerAction before_action ''X'' ''R'' (JStr ''discard'') JNull = (before_action, []) \<and>
   snd (on_playerAction two_players ''B'' ''R'' (JStr ''discard'') JNull) =
     [Emit (ToRoom ''R'') (ActionBroadcast (JStr ''discard'') JNull 1 (JStr ''Bob'') False)] \<and>
   map_option room_view (map_of (rooms sender_left) ''R'') = Some (''h'', Playing, [(''h'', True, 0)]) \<and>
   {''h''} \<subseteq> recipients (groups sender_left) (ToRoomExcept ''R'' ''B'') \<and>
   recipients (groups one_player) (ToRoomExcept ''Q'' ''B'') = {}"
proof -
  have r: "reachable sender_left"
    unfolding sender_left_def before_action_def
    by (rule reachable_run) (rule reachable_run, rule reachable.start)
  have r1: "reachable one_player"
    unfolding one_player_def by (rule reachable_run) (rule reachable.start)
  have m: "map_of (rooms before_action) ''R'' = Some (the (map_of (rooms before_action) ''R''))"
    by (simp add: before_action_def handler_defs)
  have v: "map_option room_view (map_of (rooms before_action) ''R'') =
     Some (''h'', Playing, [(''h'', True, 0), (''B'', False, 1)])"
    "map_option gameState (map_of (rooms before_action) ''R'') = Some (JNum 1)"
    by (simp_all add: before_action_def handler_defs)
  have t: "truthy (gameState (the (map_of (rooms before_action) ''R'')))"
    by (simp add: before_action_def handler_defs)
  have f: "find (\<lambda>p. id' p = ''B'') (players (the (map_of (rooms before_action) ''R''))) =
      Some \<lparr> id' = ''B'', name = JStr ''Bob'', isHost = False, seat = 1 \<rparr>"
    by (simp add: before_action_def handler_defs)
  have x: "''X'' \<notin> id' ` set (players (the (map_of (rooms before_action) ''R'')))"
    by (simp add: before_action_def handler_defs)
  have m2: "map_of (rooms two_players) ''R'' = Some (the (map_of (rooms two_players) ''R''))"
    by (simp add: two_players_def handler_defs)
  have t2: "\<not> truthy (gameState (the (map_of (rooms two_players) ''R'')))"
    by (simp add: two_players_def handler_defs)
  have f2: "find (\<lambda>p. id' p = ''B'') (players (the (map_of (rooms two_players) ''R''))) =
      Some \<lparr> id' = ''B'', name = JStr ''Bob'', isHost = False, seat = 1 \<rparr>"
    by (simp add: two_players_def handler_defs)
  have ml: "map_of (rooms sender_left) ''R'' = Some (the (map_of (rooms sender_left) ''R''))"
    by (simp add: sender_left_def before_action_def handler_defs)
  have vl: "map_option room_view (map_of (rooms sender_left) ''R'') = Some (''h'', Playing, [(''h'', True, 0)])"
    by (simp add: sender_left_def before_action_def handler_defs)
  have il: "id' ` set (players (the (map_of (rooms sender_left) ''R''))) - {''B''} = {''h''}"
    by (simp add: sender_left_def before_action_def handler_defs)
  have e: "groups one_player ''Q'' \<subseteq> {''B''}"
    by (simp add: one_player_def handler_defs)
  from playerAction_delayed_relay [OF r, of before_action "''R''" "the (map_of (rooms before_action) ''R'')" "''B''"
      "\<lparr> id' = ''B'', name = JStr ''Bob'', isHost = False, seat = 1 \<rparr>" "JStr ''discard''" JNull undefined undefined
      "the (map_of (rooms sender_left) ''R'')"]
    m f t ml il
  have 1: "on_playerAction before_action ''B'' ''R'' (JStr ''discard'') JNull =
     (before_action,
      [Emit (ToRoom ''R'') (ActionBroadcast (JStr ''discard'') JNull 1 (JStr ''Bob'') False),
       SetTimeout ''R'' ''B'' 100])"
    and 2: "{''h''} \<subseteq> recipients (groups sender_left) (ToRoomExcept ''R'' ''B'')"
    by simp_all
  from playerAction_delayed_relay [OF r, of before_action "''R''" "the (map_of (rooms before_action) ''R'')" "''X''"
      undefined "JStr ''discard''" JNull] m x
  have 3: "on_playerAction before_action ''X'' ''R'' (JStr ''discard'') JNull = (before_action, [])"
    by simp
  from playerAction_delayed_relay [OF r, of two_players "''R''" "the (map_of (rooms two_players) ''R'')" "''B''"
      "\<lparr> id' = ''B'', name = JStr ''Bob'', isHost = False, seat = 1 \<rparr>" "JStr ''discard''" JNull] m2 f2 t2
  have 4: "snd (on_playerAction two_players ''B'' ''R'' (JStr ''discard'') JNull) =
     [Emit (ToRoom ''R'') (ActionBroadcast (JStr ''discard'') JNull 1 (JStr ''Bob'') False)]"
    by simp
  from playerAction_delayed_relay [OF r1, of _ "''Q''" _ "''B''"] e
  have 5: "recipients (groups one_player) (ToRoomExcept ''Q'' ''B'') = {}"
    by blast
  from r v 1 2 3 4 5 vl show ?thesis by blast
qed

text \<open>
  The relay is not a no-op once the acting player has left: the guest acts, the timer
  is set, the guest leaves, and the callback still sends the stored state to the host.
\<close>

theorem delayed_relay_reaches_room_after_sender_left:
  "reachable sender_left \<and>
   snd (on_playerAction before_action ''B'' ''R'' (JStr ''discard'') JNull) =
     [Emit (ToRoom ''R'') (ActionBroadcast (JStr ''discard'') JNull 1 (JStr ''Bob'') False),
      SetTimeout ''R'' ''B'' 100] \<and>
   map_option room_view (map_of (rooms sender_left) ''R'') = Some (''h'', Playing, [(''h'', True, 0)]) \<and>
   map_option gameState (map_of (rooms sender_left) ''R'') = Some (JNum 1) \<and>
   delayed_gameStateSync ''R'' ''B'' (the (map_of (rooms sender_left) ''R''))
       \<lparr> id' = ''B'', name = JStr ''Bob'', isHost = False, seat = 1 \<rparr> =
     [Emit (ToRoomExcept ''R'' ''B'') (GameStateSync (JNum 1) 1 False)] \<and>
   recipients (groups sender_left) (ToRoomExcept ''R'' ''B'') = {''h''}"
proof -
  have "reachable sender_left"
    unfolding sender_left_def before_action_def
    by (rule reachable_run) (rule reachable_run, rule reachable.start)
  then show ?thesis
    by (simp add: sender_left_def before_action_def handler_defs delayed_gameStateSync_def)
qed

end
